theory Spec2Isabelle
  imports Main
begin

section \<open>The page state\<close>

text \<open>
  The script works on three pieces of browser state: the DOM tree, \<open>localStorage\<close> and
  the listeners it has registered. DOM elements are JavaScript objects, so two
  variables can hold the same element and an element stays alive after it has been
  removed from the tree. The model therefore keeps the elements in a store: a \<open>ref\<close> is
  the position of an element in \<open>nodes\<close>, and the tree is given by each element's
  \<open>childNodes\<close>.

  A child is a text node, an element, or the nodes that the HTML parser builds when
  markup is assigned to \<open>innerHTML\<close>. The last are kept as the assigned markup string:
  the only markup the script assigns is \<open>SUN_SVG\<close> and \<open>MOON_SVG\<close>, which contain no
  id, class, \<open>data-en\<close> attribute or link, so that none of the script's selectors
  matches inside.
\<close>

type_synonym ref = nat

datatype child = TextChild string | ElemChild ref | MarkupChild string

record element =
  tagName :: string
  attributes :: "string \<rightharpoonup> string"
  classList :: "string set"
  childNodes :: "child list"
  maxHeight :: string
  scrollHeight :: nat

text \<open>
  \<open>attributes\<close> holds every attribute but \<open>class\<close>, which is \<open>classList\<close>;
  \<open>maxHeight\<close> is \<open>style.maxHeight\<close>, the empty string when no override is set;
  \<open>scrollHeight\<close> is the content height in pixels that layout reports.

  The closures passed to \<open>addEventListener\<close> are represented by the variables they
  capture: \<open>AccordionClick item btn panel\<close>, \<open>MenuToggleClick btn nav\<close>,
  \<open>NavLinkClick nav\<close>.
\<close>

datatype listener =
    AccordionClick ref ref ref
  | MenuToggleClick ref ref
  | NavLinkClick ref
  | LangToggleClick
  | ThemeToggleClick

record page =
  nodes :: "element list"
  documentElement :: ref
  localStorage :: "string \<rightharpoonup> string"
  listeners :: "(ref \<times> listener) list"
  observed :: "ref list"

text \<open>An entry of an IntersectionObserver notification.\<close>

record entry =
  target :: ref
  isIntersecting :: bool

text \<open>
  What the script reads from the environment at load: the current year, and
  \<open>window.matchMedia('(prefers-color-scheme: dark)').matches\<close>, which is \<open>None\<close> when
  \<open>window.matchMedia\<close> is not defined.
\<close>

record env =
  year :: nat
  prefersDark :: "bool option"

text \<open>
  The repository holds two versions of the script. They differ in \<open>applyTheme\<close>, in
  \<open>setupAccordion\<close> and in the default theme; the functions that differ take the
  version as their first argument.
\<close>

datatype source = Script_js | Part_000

section \<open>DOM operations\<close>

definition forEach :: "'a list \<Rightarrow> ('a \<Rightarrow> 's \<Rightarrow> 's) \<Rightarrow> 's \<Rightarrow> 's" where
  "forEach xs f = fold f xs"

definition updEl :: "ref \<Rightarrow> (element \<Rightarrow> element) \<Rightarrow> page \<Rightarrow> page" where
  "updEl r f d =
     (if r < length (nodes d) then d\<lparr>nodes := (nodes d)[r := f (nodes d ! r)]\<rparr> else d)"

definition getAttribute :: "page \<Rightarrow> ref \<Rightarrow> string \<Rightarrow> string option" where
  "getAttribute d r a = (if r < length (nodes d) then attributes (nodes d ! r) a else None)"

definition setAttribute :: "ref \<Rightarrow> string \<Rightarrow> string \<Rightarrow> page \<Rightarrow> page" where
  "setAttribute r a v = updEl r (\<lambda>e. e\<lparr>attributes := (attributes e)(a \<mapsto> v)\<rparr>)"

text \<open>
  Assigning \<open>textContent\<close> replaces all children by one text node, or by nothing when
  the string is empty. Assigning \<open>innerHTML\<close> replaces them by the parsed markup.
\<close>

definition setTextContent :: "ref \<Rightarrow> string \<Rightarrow> page \<Rightarrow> page" where
  "setTextContent r s = updEl r (\<lambda>e. e\<lparr>childNodes := (if s = [] then [] else [TextChild s])\<rparr>)"

definition setInnerHTML :: "ref \<Rightarrow> string \<Rightarrow> page \<Rightarrow> page" where
  "setInnerHTML r s = updEl r (\<lambda>e. e\<lparr>childNodes := (if s = [] then [] else [MarkupChild s])\<rparr>)"

definition setMaxHeight :: "ref \<Rightarrow> string \<Rightarrow> page \<Rightarrow> page" where
  "setMaxHeight r v = updEl r (\<lambda>e. e\<lparr>maxHeight := v\<rparr>)"

definition hasClass :: "page \<Rightarrow> ref \<Rightarrow> string \<Rightarrow> bool" where
  "hasClass d r c = (r < length (nodes d) \<and> c \<in> classList (nodes d ! r))"

definition classList_add :: "ref \<Rightarrow> string \<Rightarrow> page \<Rightarrow> page" where
  "classList_add r c = updEl r (\<lambda>e. e\<lparr>classList := insert c (classList e)\<rparr>)"

definition classList_remove :: "ref \<Rightarrow> string \<Rightarrow> page \<Rightarrow> page" where
  "classList_remove r c = updEl r (\<lambda>e. e\<lparr>classList := classList e - {c}\<rparr>)"

text \<open>\<open>classList.toggle\<close> returns whether the class is present afterwards.\<close>

definition classList_toggle :: "ref \<Rightarrow> string \<Rightarrow> page \<Rightarrow> page \<times> bool" where
  "classList_toggle r c d =
     (if hasClass d r c then (classList_remove r c d, False) else (classList_add r c d, True))"

definition getItem :: "page \<Rightarrow> string \<Rightarrow> string option" where
  "getItem d k = localStorage d k"

definition setItem :: "string \<Rightarrow> string \<Rightarrow> page \<Rightarrow> page" where
  "setItem k v d = d\<lparr>localStorage := (localStorage d)(k \<mapsto> v)\<rparr>"

definition addEventListener :: "ref \<Rightarrow> listener \<Rightarrow> page \<Rightarrow> page" where
  "addEventListener r l d = d\<lparr>listeners := listeners d @ [(r, l)]\<rparr>"

definition observe :: "ref \<Rightarrow> page \<Rightarrow> page" where
  "observe r d = d\<lparr>observed := observed d @ [r]\<rparr>"

subsection \<open>Selectors\<close>

datatype selector =
    HasAttr string
  | ById string
  | ByClass string
  | ByTag string
  | Either selector selector

fun matches :: "selector \<Rightarrow> element \<Rightarrow> bool" where
  "matches (HasAttr a) e = (attributes e a \<noteq> None)"
| "matches (ById i) e = (attributes e ''id'' = Some i)"
| "matches (ByClass c) e = (c \<in> classList e)"
| "matches (ByTag t) e = (tagName e = t)"
| "matches (Either s t) e = (matches s e \<or> matches t e)"

fun elemRefs :: "child list \<Rightarrow> ref list" where
  "elemRefs [] = []"
| "elemRefs (ElemChild r # cs) = r # elemRefs cs"
| "elemRefs (TextChild s # cs) = elemRefs cs"
| "elemRefs (MarkupChild s # cs) = elemRefs cs"

text \<open>
  The elements below \<open>r\<close> in document order, down to \<open>n\<close> levels. The queries go
  \<open>length h\<close> levels down: a tree of that many elements is not as deep, and
  \<open>descendants_complete\<close> below shows that nothing in the store is missed.
\<close>

fun descendants :: "nat \<Rightarrow> element list \<Rightarrow> ref \<Rightarrow> ref list" where
  "descendants 0 h r = []"
| "descendants (Suc n) h r =
     (if r < length h
      then concat (map (\<lambda>c. c # descendants n h c) (elemRefs (childNodes (h ! r))))
      else [])"

definition selectFrom :: "page \<Rightarrow> ref list \<Rightarrow> selector \<Rightarrow> ref list" where
  "selectFrom d rs sel = [r \<leftarrow> rs. r < length (nodes d) \<and> matches sel (nodes d ! r)]"

text \<open>\<open>document.querySelectorAll\<close>: the root element and everything below it.\<close>

definition querySelectorAll :: "page \<Rightarrow> selector \<Rightarrow> ref list" where
  "querySelectorAll d sel =
     selectFrom d (documentElement d #
       descendants (length (nodes d)) (nodes d) (documentElement d)) sel"

text \<open>\<open>el.querySelectorAll\<close> and \<open>el.querySelector\<close>: what is below \<open>el\<close>, without \<open>el\<close>.\<close>

definition querySelectorAllIn :: "page \<Rightarrow> ref \<Rightarrow> selector \<Rightarrow> ref list" where
  "querySelectorAllIn d el sel =
     selectFrom d (descendants (length (nodes d)) (nodes d) el) sel"

definition querySelectorIn :: "page \<Rightarrow> ref \<Rightarrow> selector \<Rightarrow> ref option" where
  "querySelectorIn d el sel =
     (case querySelectorAllIn d el sel of [] \<Rightarrow> None | r # _ \<Rightarrow> Some r)"

definition getElementById :: "page \<Rightarrow> string \<Rightarrow> ref option" where
  "getElementById d i =
     (case querySelectorAll d (ById i) of [] \<Rightarrow> None | r # _ \<Rightarrow> Some r)"

subsection \<open>Numbers as strings\<close>

text \<open>The decimal digits of a non-negative integer, as JavaScript's conversion gives them.\<close>

fun numberToString :: "nat \<Rightarrow> string" where
  "numberToString n =
     (if n < 10 then [char_of (48 + n)]
      else numberToString (n div 10) @ [char_of (48 + n mod 10)])"

declare numberToString.simps [simp del]

section \<open>The script\<close>

definition LS_LANG :: string where
  "LS_LANG = ''site-lang''"

definition LS_THEME :: string where
  "LS_THEME = ''site-theme''"

subsection \<open>setYear\<close>

definition setYear :: "nat \<Rightarrow> page \<Rightarrow> page" where
  "setYear y d =
     (let el = getElementById d ''year'';
          el2 = getElementById d ''year-2'';
          d1 = (case el of Some e \<Rightarrow> setTextContent e (numberToString y) d | None \<Rightarrow> d)
      in (case el2 of Some e \<Rightarrow> setTextContent e (numberToString y) d1 | None \<Rightarrow> d1))"

subsection \<open>applyLanguage\<close>

definition langToggles :: selector where
  "langToggles = Either (ById ''lang-toggle'') (ById ''lang-toggle-2'')"

definition translate :: "string \<Rightarrow> ref \<Rightarrow> page \<Rightarrow> page" where
  "translate lang el d =
     (let en = getAttribute d el ''data-en'';
          ml = getAttribute d el ''data-ml''
      in if lang = ''ml'' \<and> ml \<noteq> None then setTextContent el (the ml) d
         else if en \<noteq> None then setTextContent el (the en) d
         else d)"

definition applyLanguage :: "string \<Rightarrow> page \<Rightarrow> page" where
  "applyLanguage lang d =
     (let d1 = forEach (querySelectorAll d (HasAttr ''data-en'')) (translate lang) d;
          d2 = forEach (querySelectorAll d1 langToggles)
                 (\<lambda>btn. setTextContent btn (if lang = ''ml'' then ''ML'' else ''EN'')) d1
      in setItem LS_LANG lang d2)"

subsection \<open>applyTheme\<close>

definition MOON_SVG :: string where
  \<open>MOON_SVG = ''<svg viewBox="0 0 24 24" width="18" height="18" xmlns="http://www.w3.org/2000/svg" aria-hidden="true"><path fill="currentColor" d="M21 12.79A9 9 0 1111.21 3 7 7 0 0021 12.79z"/></svg>''\<close>

definition SUN_SVG :: string where
  \<open>SUN_SVG = ''<svg viewBox="0 0 24 24" width="18" height="18" xmlns="http://www.w3.org/2000/svg" aria-hidden="true"><path fill="currentColor" d="M6.76 4.84l-1.8-1.79L3.17 4.85l1.79 1.79L6.76 4.84zM1 13h3v-2H1v2zm10 9h2v-3h-2v3zm7.04-17.04l1.79-1.79-1.79-1.79-1.79 1.79 1.79 1.79zM17 13h3v-2h-3v2zM6.76 19.16l-1.79 1.79 1.79 1.79 1.79-1.79-1.79-1.79zM12 6a6 6 0 100 12 6 6 0 000-12z"/></svg>''\<close>

text \<open>The two emoji of the older version, as their UTF-8 bytes: U+2600 U+FE0F and U+1F319.\<close>

definition SUN_EMOJI :: string where
  "SUN_EMOJI = [CHR 0xE2, CHR 0x98, CHR 0x80, CHR 0xEF, CHR 0xB8, CHR 0x8F]"

definition MOON_EMOJI :: string where
  "MOON_EMOJI = [CHR 0xF0, CHR 0x9F, CHR 0x8C, CHR 0x99]"

definition themeToggles :: selector where
  "themeToggles = Either (ById ''theme-toggle'') (ById ''theme-toggle-2'')"

fun setIcon :: "source \<Rightarrow> string \<Rightarrow> ref \<Rightarrow> page \<Rightarrow> page" where
  "setIcon Script_js theme btn = setInnerHTML btn (if theme = ''dark'' then SUN_SVG else MOON_SVG)"
| "setIcon Part_000 theme btn =
     setTextContent btn (if theme = ''dark'' then SUN_EMOJI else MOON_EMOJI)"

definition applyTheme :: "source \<Rightarrow> string \<Rightarrow> page \<Rightarrow> page" where
  "applyTheme src theme d =
     (let d1 = (if theme = ''dark''
                then setAttribute (documentElement d) ''data-theme'' ''dark'' d
                else setAttribute (documentElement d) ''data-theme'' ''light'' d);
          d2 = forEach (querySelectorAll d1 themeToggles) (setIcon src theme) d1
      in setItem LS_THEME theme d2)"

subsection \<open>setupObserver\<close>

definition observerCallback :: "entry list \<Rightarrow> page \<Rightarrow> page" where
  "observerCallback entries d =
     forEach entries
       (\<lambda>e d. if isIntersecting e then classList_add (target e) ''visible'' d else d) d"

definition setupObserver :: "page \<Rightarrow> page" where
  "setupObserver d = forEach (querySelectorAll d (ByClass ''fade-in'')) observe d"

subsection \<open>setupAccordion\<close>

definition accordionClick :: "ref \<Rightarrow> ref \<Rightarrow> ref \<Rightarrow> page \<Rightarrow> page" where
  "accordionClick item btn panel d =
     (let (d1, isOpen) = classList_toggle item ''open'' d;
          d2 = setAttribute btn ''aria-expanded'' (if isOpen then ''true'' else ''false'') d1
      in if isOpen
         then setMaxHeight panel (numberToString (scrollHeight (nodes d2 ! panel)) @ ''px'') d2
         else setMaxHeight panel '''' d2)"

definition setupItem :: "ref \<Rightarrow> page \<Rightarrow> page" where
  "setupItem item d =
     (case querySelectorIn d item (ByClass ''accordion-header'') of
        None \<Rightarrow> d
      | Some btn \<Rightarrow>
          (case querySelectorIn d item (ByClass ''accordion-panel'') of
             None \<Rightarrow> d
           | Some panel \<Rightarrow> addEventListener btn (AccordionClick item btn panel) d))"

fun setupAccordion :: "source \<Rightarrow> page \<Rightarrow> page" where
  "setupAccordion Script_js d =
     forEach (querySelectorAll d (ByClass ''accordion''))
       (\<lambda>container d'.
          forEach (querySelectorAllIn d' container (ByClass ''accordion-item'')) setupItem d') d"
| "setupAccordion Part_000 d =
     (case getElementById d ''services-accordion'' of
        None \<Rightarrow> d
      | Some container \<Rightarrow>
          forEach (querySelectorAllIn d container (ByClass ''accordion-item'')) setupItem d)"

subsection \<open>setupNavToggle\<close>

definition menuToggleClick :: "ref \<Rightarrow> ref \<Rightarrow> page \<Rightarrow> page" where
  "menuToggleClick btn nav d =
     (let (d1, open) = classList_toggle nav ''open'' d
      in setAttribute btn ''aria-expanded'' (if open then ''true'' else ''false'') d1)"

definition navLinkClick :: "ref \<Rightarrow> page \<Rightarrow> page" where
  "navLinkClick nav d = classList_remove nav ''open'' d"

definition setupNavToggle :: "page \<Rightarrow> page" where
  "setupNavToggle d =
     (case getElementById d ''menu-toggle'' of
        None \<Rightarrow> d
      | Some btn \<Rightarrow>
          (case getElementById d ''nav-links'' of
             None \<Rightarrow> d
           | Some nav \<Rightarrow>
               (let d1 = addEventListener btn (MenuToggleClick btn nav) d
                in forEach (querySelectorAllIn d1 nav (ByTag ''a''))
                     (\<lambda>a. addEventListener a (NavLinkClick nav)) d1)))"

subsection \<open>The toggle buttons and the listeners\<close>

definition langToggleClick :: "page \<Rightarrow> page" where
  "langToggleClick d =
     (let newLang = (if getItem d LS_LANG = Some ''ml'' then ''en'' else ''ml'')
      in applyLanguage newLang d)"

definition themeToggleClick :: "source \<Rightarrow> page \<Rightarrow> page" where
  "themeToggleClick src d =
     (let current = getAttribute d (documentElement d) ''data-theme''
      in applyTheme src (if current = Some ''dark'' then ''light'' else ''dark'') d)"

fun handleEvent :: "source \<Rightarrow> listener \<Rightarrow> page \<Rightarrow> page" where
  "handleEvent src (AccordionClick item btn panel) d = accordionClick item btn panel d"
| "handleEvent src (MenuToggleClick btn nav) d = menuToggleClick btn nav d"
| "handleEvent src (NavLinkClick nav) d = navLinkClick nav d"
| "handleEvent src LangToggleClick d = langToggleClick d"
| "handleEvent src ThemeToggleClick d = themeToggleClick src d"

subsection \<open>Clicks\<close>

text \<open>
  What the browser does with a click on an element: the listeners registered on the
  element run in the order of their registration, then those on its parent, and so on
  up to the root.
\<close>

definition parentOf :: "element list \<Rightarrow> ref \<Rightarrow> ref option" where
  "parentOf h c = find (\<lambda>p. c \<in> set (elemRefs (childNodes (h ! p)))) [0..<length h]"

fun ancestors :: "nat \<Rightarrow> element list \<Rightarrow> ref \<Rightarrow> ref list" where
  "ancestors 0 h c = []"
| "ancestors (Suc n) h c =
     (case parentOf h c of None \<Rightarrow> [] | Some p \<Rightarrow> p # ancestors n h p)"

definition listenersOn :: "page \<Rightarrow> ref \<Rightarrow> listener list" where
  "listenersOn d r = map snd (filter (\<lambda>(x, l). x = r) (listeners d))"

definition click :: "source \<Rightarrow> ref \<Rightarrow> page \<Rightarrow> page" where
  "click src t d =
     forEach (t # ancestors (length (nodes d)) (nodes d) t)
       (\<lambda>node d'. forEach (listenersOn d' node) (handleEvent src) d') d"

subsection \<open>Initialization on DOMContentLoaded\<close>

text \<open>
  \<open>a || b\<close> on what \<open>getItem\<close> returns: \<open>null\<close> and the empty string are falsy, every
  other string is returned as it is.
\<close>

definition orElse :: "string option \<Rightarrow> string \<Rightarrow> string" where
  "orElse a b = (case a of None \<Rightarrow> b | Some s \<Rightarrow> if s = [] then b else s)"

definition savedLang :: "page \<Rightarrow> string" where
  "savedLang d = orElse (getItem d LS_LANG) ''en''"

fun defaultTheme :: "source \<Rightarrow> env \<Rightarrow> string" where
  "defaultTheme Script_js e = ''dark''"
| "defaultTheme Part_000 e = (if prefersDark e = Some True then ''dark'' else ''light'')"

definition savedTheme :: "source \<Rightarrow> env \<Rightarrow> page \<Rightarrow> string" where
  "savedTheme src e d = orElse (getItem d LS_THEME) (defaultTheme src e)"

definition onDOMContentLoaded :: "source \<Rightarrow> env \<Rightarrow> page \<Rightarrow> page" where
  "onDOMContentLoaded src e d =
     (let d1 = setYear (year e) d;
          d2 = setupObserver d1;
          d3 = setupNavToggle d2;
          d4 = setupAccordion src d3;
          d5 = applyLanguage (savedLang d4) d4;
          d6 = applyTheme src (savedTheme src e d5) d5;
          d7 = forEach (querySelectorAll d6 langToggles)
                 (\<lambda>btn. addEventListener btn LangToggleClick) d6
      in forEach (querySelectorAll d7 themeToggles)
           (\<lambda>btn. addEventListener btn ThemeToggleClick) d7)"

section \<open>Notions used in the statements\<close>

text \<open>What an element holds after \<open>s\<close> has been assigned to its \<open>textContent\<close>.\<close>

definition textNodes :: "string \<Rightarrow> child list" where
  "textNodes s = (if s = [] then [] else [TextChild s])"

text \<open>What a theme button holds after \<open>applyTheme\<close> has set its icon.\<close>

definition iconNodes :: "source \<Rightarrow> string \<Rightarrow> child list" where
  "iconNodes src theme =
     (case src of
        Script_js \<Rightarrow> [MarkupChild (if theme = ''dark'' then SUN_SVG else MOON_SVG)]
      | Part_000 \<Rightarrow> [TextChild (if theme = ''dark'' then SUN_EMOJI else MOON_EMOJI)])"

text \<open>The part of an element that selectors look at.\<close>

definition shape :: "element \<Rightarrow> string \<times> (string \<rightharpoonup> string) \<times> string set" where
  "shape e = (tagName e, attributes e, classList e)"

text \<open>Two page states with the same elements, root and storage.\<close>

definition sameDocument :: "page \<Rightarrow> page \<Rightarrow> bool" where
  "sameDocument d d' =
     (nodes d' = nodes d \<and> documentElement d' = documentElement d \<and>
      localStorage d' = localStorage d)"

text \<open>The page after the first loop of \<open>applyLanguage\<close>.\<close>

definition translated :: "string \<Rightarrow> page \<Rightarrow> page" where
  "translated lang d = forEach (querySelectorAll d (HasAttr ''data-en'')) (translate lang) d"

text \<open>
  The items that \<open>setupAccordion\<close> goes through, and the listener that \<open>setupItem\<close>
  registers for an item: none when the header control or the panel is missing.
\<close>

fun accordionItems :: "source \<Rightarrow> page \<Rightarrow> ref list" where
  "accordionItems Script_js d =
     concat (map (\<lambda>container. querySelectorAllIn d container (ByClass ''accordion-item''))
               (querySelectorAll d (ByClass ''accordion'')))"
| "accordionItems Part_000 d =
     (case getElementById d ''services-accordion'' of
        None \<Rightarrow> []
      | Some container \<Rightarrow> querySelectorAllIn d container (ByClass ''accordion-item''))"

definition itemListeners :: "page \<Rightarrow> ref \<Rightarrow> (ref \<times> listener) list" where
  "itemListeners d item =
     (case querySelectorIn d item (ByClass ''accordion-header'') of
        None \<Rightarrow> []
      | Some btn \<Rightarrow>
          (case querySelectorIn d item (ByClass ''accordion-panel'') of
             None \<Rightarrow> []
           | Some panel \<Rightarrow> [(btn, AccordionClick item btn panel)]))"

text \<open>
  The tree, as a relation: \<open>childOf h p c\<close> when \<open>c\<close> is among the child elements of
  \<open>p\<close>, and \<open>below h r k\<close> when \<open>k\<close> is reached from \<open>r\<close> by one or more such steps.
  \<open>reach V h r k\<close> is the same, along a path that leaves only from elements of \<open>V\<close>.
\<close>

definition childOf :: "element list \<Rightarrow> ref \<Rightarrow> ref \<Rightarrow> bool" where
  "childOf h p c = (p < length h \<and> c \<in> set (elemRefs (childNodes (h ! p))))"

inductive below :: "element list \<Rightarrow> ref \<Rightarrow> ref \<Rightarrow> bool" for h r where
  child: "childOf h r k \<Longrightarrow> below h r k"
| deeper: "below h r p \<Longrightarrow> childOf h p k \<Longrightarrow> below h r k"

inductive reach :: "ref set \<Rightarrow> element list \<Rightarrow> ref \<Rightarrow> ref \<Rightarrow> bool" for V h where
  step: "r \<in> V \<Longrightarrow> childOf h r k \<Longrightarrow> reach V h r k"
| trans: "r \<in> V \<Longrightarrow> childOf h r c \<Longrightarrow> reach V h c k \<Longrightarrow> reach V h r k"

text \<open>
  In a DOM tree an element is the child of one element at most, and once. \<open>nestedIn d b a\<close>
  says that \<open>b\<close> lies somewhere inside \<open>a\<close>.
\<close>

definition singleParent :: "element list \<Rightarrow> bool" where
  "singleParent h = distinct (concat (map (\<lambda>e. elemRefs (childNodes e)) h))"

definition nestedIn :: "page \<Rightarrow> ref \<Rightarrow> ref \<Rightarrow> bool" where
  "nestedIn d b a = (b \<in> set (descendants (length (nodes d)) (nodes d) a))"

section \<open>Example pages\<close>

definition mkElement ::
  "string \<Rightarrow> (string \<times> string) list \<Rightarrow> string list \<Rightarrow> child list \<Rightarrow> nat \<Rightarrow> element" where
  "mkElement t as cs ch sh =
     \<lparr>tagName = t, attributes = map_of as, classList = set cs, childNodes = ch,
      maxHeight = [], scrollHeight = sh\<rparr>"

definition mkPage :: "element list \<Rightarrow> (string \<times> string) list \<Rightarrow> page" where
  "mkPage h st =
     \<lparr>nodes = h, documentElement = 0, localStorage = map_of st, listeners = [], observed = []\<rparr>"

text \<open>
  A page with everything the script looks for: a menu button and two navigation links,
  a language and a theme button, a heading that is revealed on scroll and an accordion
  of two items.
\<close>

definition samplePage :: page where
  "samplePage = mkPage
     [mkElement ''html'' [] [] [ElemChild 1] 0,
      mkElement ''body'' [] []
        [ElemChild 2, ElemChild 3, ElemChild 6, ElemChild 7, ElemChild 8, ElemChild 9] 0,
      mkElement ''button'' [(''id'', ''menu-toggle'')] [] [TextChild ''Menu''] 0,
      mkElement ''nav'' [(''id'', ''nav-links'')] [] [ElemChild 4, ElemChild 5] 0,
      mkElement ''a'' [(''data-en'', ''Home''), (''data-ml'', ''Veedu'')] [] [TextChild ''Home''] 0,
      mkElement ''a'' [(''data-en'', ''Services'')] [] [TextChild ''Services''] 0,
      mkElement ''button'' [(''id'', ''lang-toggle'')] [] [TextChild ''EN''] 0,
      mkElement ''button'' [(''id'', ''theme-toggle'')] [] [] 0,
      mkElement ''h1'' [(''data-en'', ''Welcome''), (''data-ml'', ''Swagatham'')] [''fade-in'']
        [TextChild ''Welcome''] 0,
      mkElement ''div'' [(''id'', ''services-accordion'')] [''accordion'']
        [ElemChild 10, ElemChild 13] 0,
      mkElement ''article'' [] [''accordion-item''] [ElemChild 11, ElemChild 12] 0,
      mkElement ''button'' [(''aria-expanded'', ''false'')] [''accordion-header'']
        [TextChild ''Tours''] 0,
      mkElement ''div'' [] [''accordion-panel''] [TextChild ''Day trips''] 120,
      mkElement ''article'' [] [''accordion-item'', ''open''] [ElemChild 14, ElemChild 15] 0,
      mkElement ''button'' [(''aria-expanded'', ''true'')] [''accordion-header'']
        [TextChild ''Rentals''] 0,
      mkElement ''div'' [] [''accordion-panel''] [TextChild ''Cars and vans''] 80]
     []"

text \<open>A language button that also carries \<open>data-en\<close>, and one that does not.\<close>

definition togglePage :: page where
  "togglePage = mkPage
     [mkElement ''html'' [] [] [ElemChild 1, ElemChild 2] 0,
      mkElement ''button'' [(''id'', ''lang-toggle''), (''data-en'', ''Language'')] []
        [TextChild ''Language''] 0,
      mkElement ''button'' [(''id'', ''lang-toggle-2'')] [] [TextChild ''EN''] 0]
     []"

text \<open>
  An accordion item (2) that holds another item (4) between its header and its panel:
  the first panel below either item is the inner one (6).
\<close>

definition nestedPage :: page where
  "nestedPage = mkPage
     [mkElement ''html'' [] [] [ElemChild 1] 0,
      mkElement ''div'' [] [''accordion''] [ElemChild 2] 0,
      mkElement ''article'' [] [''accordion-item''] [ElemChild 3, ElemChild 4, ElemChild 7] 0,
      mkElement ''button'' [] [''accordion-header''] [TextChild ''Outer''] 0,
      mkElement ''article'' [] [''accordion-item''] [ElemChild 5, ElemChild 6] 0,
      mkElement ''button'' [] [''accordion-header''] [TextChild ''Inner''] 0,
      mkElement ''div'' [] [''accordion-panel''] [TextChild ''Inner panel''] 40,
      mkElement ''div'' [] [''accordion-panel''] [TextChild ''Outer panel''] 90]
     []"

text \<open>A page whose stored preferences are not among the supported values.\<close>

definition stalePage :: page where
  "stalePage = mkPage [mkElement ''html'' [] [] [] 0]
     [(''site-lang'', ''fr''), (''site-theme'', ''blue'')]"

text \<open>A page with the navigation container, shown open, but without the menu button.\<close>

definition noMenuPage :: page where
  "noMenuPage = mkPage
     [mkElement ''html'' [] [] [ElemChild 1] 0,
      mkElement ''nav'' [(''id'', ''nav-links'')] [''open''] [ElemChild 2] 0,
      mkElement ''a'' [] [] [TextChild ''Home''] 0]
     []"

text \<open>A language button with both texts, inside an element that carries \<open>data-en\<close>.\<close>

definition nestedTogglePage :: page where
  "nestedTogglePage = mkPage
     [mkElement ''html'' [] [] [ElemChild 1] 0,
      mkElement ''div'' [(''data-en'', ''Hello'')] [] [ElemChild 2] 0,
      mkElement ''button''
        [(''id'', ''lang-toggle''), (''data-en'', ''Language''), (''data-ml'', ''Bhasha'')] []
        [TextChild ''Language''] 0]
     []"

text \<open>
  An accordion item (2) that wraps another, open item (3) and nothing else: the header
  (4) and the panel (5) of the inner item are also the first below the outer one.
\<close>

definition wrappedPage :: page where
  "wrappedPage = mkPage
     [mkElement ''html'' [] [] [ElemChild 1] 0,
      mkElement ''div'' [] [''accordion''] [ElemChild 2] 0,
      mkElement ''article'' [] [''accordion-item''] [ElemChild 3] 0,
      mkElement ''article'' [] [''accordion-item'', ''open''] [ElemChild 4, ElemChild 5] 0,
      mkElement ''button'' [(''aria-expanded'', ''true'')] [''accordion-header'']
        [TextChild ''Tours''] 0,
      mkElement ''div'' [] [''accordion-panel''] [TextChild ''Day trips''] 40]
     []"

text \<open>
  An open accordion item (2) whose header (3) holds another item (4): the header (5) of
  the inner item lies inside the header of the outer one, and both items get the panel (6).
\<close>

definition headerInHeaderPage :: page where
  "headerInHeaderPage = mkPage
     [mkElement ''html'' [] [] [ElemChild 1] 0,
      mkElement ''div'' [] [''accordion''] [ElemChild 2] 0,
      mkElement ''article'' [] [''accordion-item'', ''open''] [ElemChild 3] 0,
      mkElement ''button'' [] [''accordion-header''] [ElemChild 4] 0,
      mkElement ''article'' [] [''accordion-item''] [ElemChild 5, ElemChild 6] 0,
      mkElement ''button'' [] [''accordion-header''] [TextChild ''Inner''] 0,
      mkElement ''div'' [] [''accordion-panel''] [TextChild ''Inner panel''] 40]
     []"

text \<open>A page whose menu button holds the navigation container.\<close>

definition wrapNavPage :: page where
  "wrapNavPage = mkPage
     [mkElement ''html'' [] [] [ElemChild 1] 0,
      mkElement ''button'' [(''id'', ''menu-toggle'')] [] [ElemChild 2] 0,
      mkElement ''nav'' [(''id'', ''nav-links'')] [] [ElemChild 3] 0,
      mkElement ''a'' [] [] [TextChild ''Home''] 0]
     []"

definition sampleEnv :: env where
  "sampleEnv = \<lparr>year = 2026, prefersDark = Some False\<rparr>"

text \<open>A page after the load handler of \<open>script.js\<close> has run on it.\<close>

definition loaded :: "page \<Rightarrow> page" where
  "loaded d = onDOMContentLoaded Script_js sampleEnv d"

section \<open>Stores, loops and queries\<close>

lemma updEl_length [simp]: "length (nodes (updEl r f d)) = length (nodes d)"
  by (simp add: updEl_def)

lemma updEl_other: "k \<noteq> r \<Longrightarrow> nodes (updEl r f d) ! k = nodes d ! k"
  by (simp add: updEl_def)

lemma updEl_same: "r < length (nodes d) \<Longrightarrow> nodes (updEl r f d) ! r = f (nodes d ! r)"
  by (simp add: updEl_def)

lemma updEl_fields [simp]:
  "documentElement (updEl r f d) = documentElement d"
  "localStorage (updEl r f d) = localStorage d"
  "listeners (updEl r f d) = listeners d"
  "observed (updEl r f d) = observed d"
  by (simp_all add: updEl_def)

lemma updEl_id:
  assumes "r < length (nodes d) \<Longrightarrow> f (nodes d ! r) = nodes d ! r"
  shows "updEl r f d = d"
  using assms by (simp add: updEl_def)

text \<open>An update that leaves a field of the element alone leaves it alone in the store.\<close>

lemma updEl_field:
  assumes "\<And>e. g (f e) = g e"
  shows "g (nodes (updEl r f d) ! k) = g (nodes d ! k)"
proof (cases "k = r \<and> r < length (nodes d)")
  case True
  then show ?thesis using assms by (simp add: updEl_same)
next
  case False
  then show ?thesis by (auto simp: updEl_def)
qed

lemmas updEl_keeps =
  updEl_field [where g = classList] updEl_field [where g = attributes]
  updEl_field [where g = maxHeight] updEl_field [where g = scrollHeight]
  updEl_field [where g = childNodes] updEl_field [where g = tagName]

lemma updEl_shape:
  assumes "\<And>e. shape (f e) = shape e"
  shows "map shape (nodes (updEl r f d)) = map shape (nodes d)"
  using assms by (simp add: updEl_def map_update list_update_same_conv)

lemma matches_shape: "shape e = shape e' \<Longrightarrow> matches sel e = matches sel e'"
  by (induction sel) (auto simp: shape_def)

lemma shape_nth:
  assumes "map shape h' = map shape h" and "k < length h"
  shows "shape (h' ! k) = shape (h ! k)"
proof -
  have "length h' = length h" using assms(1) by (rule map_eq_imp_length_eq)
  with assms show ?thesis by (metis nth_map)
qed

subsection \<open>Loops\<close>

lemma fold_invariant:
  assumes "P d" and "\<And>x d. P d \<Longrightarrow> P (f x d)"
  shows "P (fold f xs d)"
  using assms by (induction xs arbitrary: d) auto

lemma fold_id:
  assumes "\<And>x. x \<in> set xs \<Longrightarrow> f x d = d"
  shows "fold f xs d = d"
  using assms by (induction xs) auto

lemma fold_frame:
  assumes "k \<notin> set xs" and "\<And>x d. x \<noteq> k \<Longrightarrow> nodes (f x d) ! k = nodes d ! k"
  shows "nodes (fold f xs d) ! k = nodes d ! k"
  using assms by (induction xs arbitrary: d) auto

text \<open>
  A loop that visits \<open>r\<close> leaves \<open>Q\<close> true when the visit to \<open>r\<close> makes it true and no
  visit makes it false, under an invariant \<open>I\<close> of the loop.
\<close>

lemma fold_establish:
  assumes "r \<in> set xs" and "I d"
    and "\<And>x d. I d \<Longrightarrow> I (f x d)"
    and "\<And>d. I d \<Longrightarrow> Q (f r d)"
    and "\<And>x d. I d \<Longrightarrow> Q d \<Longrightarrow> Q (f x d)"
  shows "Q (fold f xs d)"
  using assms(1,2)
proof (induction xs arbitrary: d)
  case Nil
  then show ?case by simp
next
  case (Cons x xs)
  show ?case
  proof (cases "r \<in> set xs")
    case True
    then show ?thesis using Cons.IH [of "f x d"] Cons.prems(2) assms(3) by simp
  next
    case False
    with Cons.prems have "x = r" by simp
    have "I (f r d) \<and> Q (f r d)" using Cons.prems(2) assms(3,4) by simp
    then have "I (fold f xs (f r d)) \<and> Q (fold f xs (f r d))"
      by (rule fold_invariant [where P = "\<lambda>d. I d \<and> Q d"]) (use assms(3,5) in auto)
    then show ?thesis using \<open>x = r\<close> by simp
  qed
qed

subsection \<open>Queries\<close>

lemma in_selectFrom:
  "r \<in> set (selectFrom d rs sel) \<longleftrightarrow>
   r \<in> set rs \<and> r < length (nodes d) \<and> matches sel (nodes d ! r)"
  by (simp add: selectFrom_def)

lemma querySelectorAll_valid:
  "r \<in> set (querySelectorAll d sel) \<Longrightarrow> r < length (nodes d) \<and> matches sel (nodes d ! r)"
  by (simp add: querySelectorAll_def in_selectFrom)

lemma querySelectorAll_cong:
  "nodes d' = nodes d \<Longrightarrow> documentElement d' = documentElement d \<Longrightarrow>
   querySelectorAll d' sel = querySelectorAll d sel"
  by (simp add: querySelectorAll_def selectFrom_def)

text \<open>Removing children from elements can only make the tree smaller.\<close>

lemma descendants_mono:
  assumes "length h' = length h"
    and "\<And>k. k < length h \<Longrightarrow>
           set (elemRefs (childNodes (h' ! k))) \<subseteq> set (elemRefs (childNodes (h ! k)))"
  shows "set (descendants n h' r) \<subseteq> set (descendants n h r)"
proof (induction n arbitrary: r)
  case 0
  show ?case by simp
next
  case (Suc n)
  show ?case
  proof (cases "r < length h")
    case True
    then show ?thesis using assms Suc.IH by (fastforce simp: subset_iff)
  next
    case False
    then show ?thesis using assms(1) by simp
  qed
qed

lemma querySelectorAll_mono:
  assumes sh: "map shape (nodes d') = map shape (nodes d)"
    and root: "documentElement d' = documentElement d"
    and ch: "\<And>k. k < length (nodes d) \<Longrightarrow>
           set (elemRefs (childNodes (nodes d' ! k))) \<subseteq> set (elemRefs (childNodes (nodes d ! k)))"
  shows "set (querySelectorAll d' sel) \<subseteq> set (querySelectorAll d sel)"
proof
  fix r assume r: "r \<in> set (querySelectorAll d' sel)"
  have len: "length (nodes d') = length (nodes d)" using sh by (rule map_eq_imp_length_eq)
  from r have v: "r < length (nodes d)" and m: "matches sel (nodes d' ! r)"
    using querySelectorAll_valid len by fastforce+
  have "shape (nodes d' ! r) = shape (nodes d ! r)" using sh v by (rule shape_nth)
  then have m': "matches sel (nodes d ! r)" using m matches_shape by blast
  have "set (descendants (length (nodes d)) (nodes d') (documentElement d))
        \<subseteq> set (descendants (length (nodes d)) (nodes d) (documentElement d))"
    using len ch by (rule descendants_mono)
  moreover from r have "r \<in> set (documentElement d' #
      descendants (length (nodes d')) (nodes d') (documentElement d'))"
    unfolding querySelectorAll_def in_selectFrom by simp
  ultimately have "r \<in> set (documentElement d #
      descendants (length (nodes d)) (nodes d) (documentElement d))"
    using len root by auto
  then show "r \<in> set (querySelectorAll d sel)"
    unfolding querySelectorAll_def in_selectFrom using v m' by simp
qed

subsection \<open>Attributes and storage\<close>

lemma setAttribute_get:
  "r < length (nodes d) \<Longrightarrow> attributes (nodes (setAttribute r a v d) ! r) a = Some v"
  by (simp add: setAttribute_def updEl_same)

lemma setAttribute_id:
  assumes "r < length (nodes d) \<Longrightarrow> attributes (nodes d ! r) a = Some v"
  shows "setAttribute r a v d = d"
  unfolding setAttribute_def
proof (rule updEl_id)
  assume "r < length (nodes d)"
  then have "(attributes (nodes d ! r))(a \<mapsto> v) = attributes (nodes d ! r)"
    using assms by (simp add: map_upd_triv)
  then show "(nodes d ! r)\<lparr>attributes := (attributes (nodes d ! r))(a \<mapsto> v)\<rparr> = nodes d ! r"
    by simp
qed

lemma setItem_nodes [simp]: "nodes (setItem k v d) = nodes d"
  by (simp add: setItem_def)

lemma setItem_id: "localStorage d k = Some v \<Longrightarrow> setItem k v d = d"
  by (simp add: setItem_def map_upd_triv)

lemma keys_differ: "LS_LANG \<noteq> LS_THEME"
  by (simp add: LS_LANG_def LS_THEME_def)

section \<open>The language loop\<close>

lemma setTextContent_shape: "map shape (nodes (setTextContent r s d)) = map shape (nodes d)"
  unfolding setTextContent_def by (rule updEl_shape) (simp add: shape_def)

lemma translate_shape: "map shape (nodes (translate lang x d)) = map shape (nodes d)"
  by (simp add: translate_def Let_def setTextContent_shape)

lemma translate_other: "x \<noteq> k \<Longrightarrow> nodes (translate lang x d) ! k = nodes d ! k"
  by (simp add: translate_def Let_def setTextContent_def updEl_other)

lemma translate_fields [simp]:
  "documentElement (translate lang x d) = documentElement d"
  "localStorage (translate lang x d) = localStorage d"
  "listeners (translate lang x d) = listeners d"
  "observed (translate lang x d) = observed d"
  by (simp_all add: translate_def Let_def setTextContent_def)

lemma translate_same:
  assumes "r < length (nodes d)" and "attributes (nodes d ! r) ''data-en'' = Some en"
  shows "childNodes (nodes (translate lang r d) ! r) =
    textNodes (case attributes (nodes d ! r) ''data-ml'' of
                 Some ml \<Rightarrow> if lang = ''ml'' then ml else en | None \<Rightarrow> en)"
  using assms
  by (auto simp: translate_def Let_def setTextContent_def updEl_same getAttribute_def textNodes_def
           split: option.splits)

lemma translate_loop:
  assumes "r \<in> set xs" and "r < length (nodes d)"
    and "attributes (nodes d ! r) ''data-en'' = Some en"
  shows "childNodes (nodes (fold (translate lang) xs d) ! r) =
    textNodes (case attributes (nodes d ! r) ''data-ml'' of
                 Some ml \<Rightarrow> if lang = ''ml'' then ml else en | None \<Rightarrow> en)"
    (is "?Q (fold (translate lang) xs d)")
proof (rule fold_establish [where I = "\<lambda>d'::page. map shape (nodes d') = map shape (nodes d)"
      and Q = ?Q and r = r])
  show "r \<in> set xs" by fact
  show "map shape (nodes d) = map shape (nodes d)" by simp
  show "\<And>x (d'::page). map shape (nodes d') = map shape (nodes d) \<Longrightarrow>
          map shape (nodes (translate lang x d')) = map shape (nodes d)"
    by (simp add: translate_shape)
next
  fix d' :: page assume I: "map shape (nodes d') = map shape (nodes d)"
  then have len: "length (nodes d') = length (nodes d)" by (rule map_eq_imp_length_eq)
  have "shape (nodes d' ! r) = shape (nodes d ! r)" using I assms(2) by (rule shape_nth)
  then have att: "attributes (nodes d' ! r) = attributes (nodes d ! r)" by (simp add: shape_def)
  show here: "?Q (translate lang r d')"
    using translate_same [of r d' en lang] assms(2,3) len att by simp
  fix x
  assume Q: "?Q d'"
  show "?Q (translate lang x d')"
  proof (cases "x = r")
    case True
    then show ?thesis using here by simp
  next
    case False
    then show ?thesis using Q by (simp add: translate_other)
  qed
qed

lemma translate_loop_shape:
  "map shape (nodes (fold (translate lang) xs d)) = map shape (nodes d)"
  by (rule fold_invariant [where P = "\<lambda>d'. map shape (nodes d') = map shape (nodes d)"])
     (simp_all add: translate_shape)

lemma translate_loop_frame:
  "k \<notin> set xs \<Longrightarrow> nodes (fold (translate lang) xs d) ! k = nodes d ! k"
  by (rule fold_frame) (simp_all add: translate_other)

lemma label_loop_frame:
  "k \<notin> set xs \<Longrightarrow> nodes (fold (\<lambda>btn. setTextContent btn s) xs d) ! k = nodes d ! k"
  by (rule fold_frame) (simp_all add: setTextContent_def updEl_other)

lemma setTextContent_updEl:
  "setTextContent r s = updEl r (\<lambda>e. e\<lparr>childNodes := textNodes s\<rparr>)"
  by (simp add: setTextContent_def textNodes_def)

lemma label_loop_same:
  assumes "k \<in> set xs" and "k < length (nodes d)"
  shows "nodes (fold (\<lambda>btn. setTextContent btn s) xs d) ! k =
         (nodes d ! k)\<lparr>childNodes := textNodes s\<rparr>"
proof (rule fold_establish [where r = k
      and I = "\<lambda>d'::page. length (nodes d') = length (nodes d) \<and>
                 (nodes d' ! k = nodes d ! k \<or>
                  nodes d' ! k = (nodes d ! k)\<lparr>childNodes := textNodes s\<rparr>)"
      and Q = "\<lambda>d'::page. nodes d' ! k = (nodes d ! k)\<lparr>childNodes := textNodes s\<rparr>"])
  show "k \<in> set xs" by fact
  show "length (nodes d) = length (nodes d) \<and>
        (nodes d ! k = nodes d ! k \<or> nodes d ! k = (nodes d ! k)\<lparr>childNodes := textNodes s\<rparr>)"
    by simp
next
  fix x and d' :: page
  assume I: "length (nodes d') = length (nodes d) \<and>
     (nodes d' ! k = nodes d ! k \<or> nodes d' ! k = (nodes d ! k)\<lparr>childNodes := textNodes s\<rparr>)"
  have at: "nodes (setTextContent k s d') ! k = (nodes d ! k)\<lparr>childNodes := textNodes s\<rparr>"
    using I assms(2) by (auto simp: setTextContent_updEl updEl_same)
  show "length (nodes (setTextContent x s d')) = length (nodes d) \<and>
     (nodes (setTextContent x s d') ! k = nodes d ! k \<or>
      nodes (setTextContent x s d') ! k = (nodes d ! k)\<lparr>childNodes := textNodes s\<rparr>)"
  proof (cases "x = k")
    case True
    then show ?thesis using at I by (simp add: setTextContent_updEl)
  next
    case False
    then show ?thesis using I by (simp add: setTextContent_updEl updEl_other)
  qed
  show "nodes (setTextContent k s d') ! k = (nodes d ! k)\<lparr>childNodes := textNodes s\<rparr>"
    by (rule at)
  assume Q: "nodes d' ! k = (nodes d ! k)\<lparr>childNodes := textNodes s\<rparr>"
  show "nodes (setTextContent x s d') ! k = (nodes d ! k)\<lparr>childNodes := textNodes s\<rparr>"
  proof (cases "x = k")
    case True
    then show ?thesis using at by simp
  next
    case False
    then show ?thesis using Q by (simp add: setTextContent_updEl updEl_other)
  qed
qed

lemma translated_shape: "map shape (nodes (translated lang d)) = map shape (nodes d)"
  by (simp add: translated_def forEach_def translate_loop_shape)

text \<open>What \<open>applyLanguage\<close> leaves in an element, in terms of the page after its first loop.\<close>

lemma applyLanguage_at:
  assumes "k < length (nodes d)"
  shows "nodes (applyLanguage lang d) ! k =
    (if k \<in> set (querySelectorAll (translated lang d) langToggles)
     then (nodes (translated lang d) ! k)
            \<lparr>childNodes := textNodes (if lang = ''ml'' then ''ML'' else ''EN'')\<rparr>
     else nodes (translated lang d) ! k)"
proof -
  have len: "length (nodes (translated lang d)) = length (nodes d)"
    using translated_shape [of lang d] by (rule map_eq_imp_length_eq)
  have eq: "nodes (applyLanguage lang d) =
      nodes (fold (\<lambda>btn. setTextContent btn (if lang = ''ml'' then ''ML'' else ''EN''))
               (querySelectorAll (translated lang d) langToggles) (translated lang d))"
    by (simp add: applyLanguage_def translated_def forEach_def Let_def)
  show ?thesis
  proof (cases "k \<in> set (querySelectorAll (translated lang d) langToggles)")
    case True
    then show ?thesis
      using label_loop_same [of k _ "translated lang d"] assms len by (simp add: eq)
  next
    case False
    then show ?thesis by (simp add: eq label_loop_frame)
  qed
qed

lemma applyLanguage_storage:
  "localStorage (applyLanguage l d) = (localStorage d)(LS_LANG \<mapsto> l)"
proof -
  have 1: "localStorage (fold (translate l) xs d) = localStorage d" for xs
    by (rule fold_invariant [where P = "\<lambda>d'. localStorage d' = localStorage d"]) simp_all
  have 2: "localStorage (fold (\<lambda>btn. setTextContent btn s) xs p) = localStorage p" for xs s p
    by (rule fold_invariant [where P = "\<lambda>d'. localStorage d' = localStorage p"])
       (simp_all add: setTextContent_def)
  show ?thesis by (simp add: applyLanguage_def forEach_def Let_def setItem_def 1 2)
qed

lemma applyLanguage_root:
  "documentElement (applyLanguage l d) = documentElement d \<and>
   length (nodes (applyLanguage l d)) = length (nodes d)"
proof -
  let ?P = "\<lambda>p d'. documentElement d' = documentElement p \<and> length (nodes d') = length (nodes p)"
  have 1: "?P d (fold (translate l) xs d)" for xs
    by (rule fold_invariant [where P = "?P d"])
       (simp_all add: translate_def Let_def setTextContent_def)
  have 2: "?P p (fold (\<lambda>btn. setTextContent btn s) xs p)" for xs s p
    by (rule fold_invariant [where P = "?P p"]) (simp_all add: setTextContent_def)
  show ?thesis using 1 2 by (simp add: applyLanguage_def forEach_def Let_def setItem_def)
qed

section \<open>The tree\<close>

text \<open>The depth that the queries use is enough in every store.\<close>

lemma reach_source: "reach V h r k \<Longrightarrow> r \<in> V"
  by (induction rule: reach.induct) auto

lemma reach_last_visit:
  "reach V h c k \<Longrightarrow>
     reach (V - {r}) h c k \<or> (\<exists>c'. childOf h r c' \<and> (c' = k \<or> reach (V - {r}) h c' k))"
proof (induction rule: reach.induct)
  case (step c k)
  then show ?case by (cases "c = r") (auto intro: reach.step)
next
  case (trans c c1 k)
  then show ?case by (cases "c = r") (auto intro: reach.trans)
qed

lemma reach_first_step:
  assumes "reach V h r k"
  shows "\<exists>c. childOf h r c \<and> (c = k \<or> reach (V - {r}) h c k)"
  using reach_last_visit [OF assms, of r] reach_source [of "V - {r}" h r k] by auto

lemma descendants_Suc:
  "childOf h r c \<Longrightarrow> c \<in> set (descendants (Suc n) h r)"
  "childOf h r c \<Longrightarrow> k \<in> set (descendants n h c) \<Longrightarrow> k \<in> set (descendants (Suc n) h r)"
  by (auto simp: childOf_def)

lemma reach_descendants:
  "finite V \<Longrightarrow> card V = n \<Longrightarrow> reach V h r k \<Longrightarrow> k \<in> set (descendants n h r)"
proof (induction n arbitrary: V r)
  case 0
  then show ?case using reach_source by fastforce
next
  case (Suc n)
  from Suc.prems(3) have "r \<in> V" by (rule reach_source)
  then have c: "card (V - {r}) = n" using Suc.prems(1,2) by simp
  from reach_first_step [OF Suc.prems(3)]
  obtain c' where e: "childOf h r c'" and d: "c' = k \<or> reach (V - {r}) h c' k" by blast
  from d show ?case
  proof
    assume "c' = k"
    then show ?thesis using e descendants_Suc(1) by blast
  next
    assume "reach (V - {r}) h c' k"
    then have "k \<in> set (descendants n h c')"
      using Suc.IH [of "V - {r}" c'] Suc.prems(1) c by simp
    then show ?thesis using e descendants_Suc(2) by blast
  qed
qed

lemma below_reach: "below h r k \<Longrightarrow> reach {..<length h} h r k"
proof (induction rule: below.induct)
  case (child k)
  then show ?case by (auto simp: childOf_def intro: reach.step)
next
  case (deeper p k)
  have ext: "reach V h a b \<Longrightarrow> b \<in> V \<Longrightarrow> childOf h b c \<Longrightarrow> reach V h a c" for V a b c
    by (induction rule: reach.induct) (auto intro: reach.step reach.trans)
  from deeper show ?case by (auto simp: childOf_def intro: ext)
qed

lemma below_trans_child: "below h c k \<Longrightarrow> childOf h r c \<Longrightarrow> below h r k"
  by (induction rule: below.induct) (auto intro: below.intros)

lemma descendants_below: "k \<in> set (descendants n h r) \<Longrightarrow> below h r k"
proof (induction n arbitrary: r)
  case 0
  then show ?case by simp
next
  case (Suc n)
  then obtain c where c: "childOf h r c" and k: "k = c \<or> k \<in> set (descendants n h c)"
    by (auto simp: childOf_def split: if_splits)
  from k show ?case
  proof
    assume "k = c"
    then show ?thesis using c by (simp add: below.child)
  next
    assume "k \<in> set (descendants n h c)"
    then have "below h c k" by (rule Suc.IH)
    then show ?thesis using c by (rule below_trans_child)
  qed
qed

lemma descendants_complete:
  "k \<in> set (descendants (length h) h r) \<longleftrightarrow> below h r k"
proof
  assume "k \<in> set (descendants (length h) h r)"
  then show "below h r k" by (rule descendants_below)
next
  assume "below h r k"
  then have "reach {..<length h} h r k" by (rule below_reach)
  then show "k \<in> set (descendants (length h) h r)"
    using reach_descendants [of "{..<length h}" "length h"] by simp
qed

text \<open>Where every element has one parent, the elements above an element form a chain.\<close>

lemma distinct_concat_unique:
  "distinct (concat xs) \<Longrightarrow> p < length xs \<Longrightarrow> q < length xs \<Longrightarrow>
   c \<in> set (xs ! p) \<Longrightarrow> c \<in> set (xs ! q) \<Longrightarrow> p = q"
proof (induction xs arbitrary: p q)
  case Nil
  then show ?case by simp
next
  case (Cons y ys)
  have inside: "c \<in> \<Union> (set ` set ys)" if "i < length ys" and "c \<in> set (ys ! i)" for i
    using that nth_mem by blast
  have apart: "set y \<inter> \<Union> (set ` set ys) = {}" and rest: "distinct (concat ys)"
    using Cons.prems(1) by simp_all
  show ?case
  proof (cases p)
    case p0: 0
    show ?thesis
    proof (cases q)
      case 0
      then show ?thesis using p0 by simp
    next
      case (Suc q')
      then have "c \<in> \<Union> (set ` set ys)" using Cons.prems(3,5) inside by simp
      moreover have "c \<in> set y" using Cons.prems(4) p0 by simp
      ultimately show ?thesis using apart by blast
    qed
  next
    case ps: (Suc p')
    show ?thesis
    proof (cases q)
      case 0
      then have "c \<in> set y" using Cons.prems(5) by simp
      moreover have "c \<in> \<Union> (set ` set ys)" using Cons.prems(2,4) ps inside by simp
      ultimately show ?thesis using apart by blast
    next
      case (Suc q')
      then have "p' = q'" using Cons.IH [OF rest, of p' q'] Cons.prems(2-5) ps by simp
      then show ?thesis using ps Suc by simp
    qed
  qed
qed

lemma singleParent_unique:
  assumes "singleParent h" and "childOf h p c" and "childOf h q c"
  shows "p = q"
  using distinct_concat_unique [of "map (\<lambda>e. elemRefs (childNodes e)) h" p q c] assms
  by (simp add: singleParent_def childOf_def)

lemma below_chain:
  assumes "singleParent h"
  shows "below h a x \<Longrightarrow> below h b x \<Longrightarrow> a = b \<or> below h a b \<or> below h b a"
proof (induction arbitrary: b rule: below.induct)
  case (child x)
  from child.prems show ?case
  proof (cases rule: below.cases)
    case child
    then show ?thesis using assms \<open>childOf h a x\<close> singleParent_unique by blast
  next
    case (deeper p)
    then have "p = a" using assms \<open>childOf h a x\<close> singleParent_unique by blast
    then show ?thesis using deeper by simp
  qed
next
  case (deeper p x)
  from deeper.prems show ?case
  proof (cases rule: below.cases)
    case child
    then have "b = p" using assms deeper.hyps(2) singleParent_unique by blast
    then show ?thesis using deeper.hyps(1) by simp
  next
    case (deeper q)
    then have "q = p" using assms \<open>childOf h p x\<close> singleParent_unique by blast
    then show ?thesis using deeper deeper.IH by simp
  qed
qed

lemma querySelectorIn_below:
  "querySelectorIn d a sel = Some x \<Longrightarrow> below (nodes d) a x"
proof -
  assume "querySelectorIn d a sel = Some x"
  then have "x \<in> set (querySelectorAllIn d a sel)"
    by (auto simp: querySelectorIn_def split: list.splits)
  then have "x \<in> set (descendants (length (nodes d)) (nodes d) a)"
    by (simp add: querySelectorAllIn_def in_selectFrom)
  then show ?thesis by (simp add: descendants_complete)
qed

lemma separate_items:
  assumes "singleParent (nodes d)"
    and "querySelectorIn d a sel = Some x" and "querySelectorIn d b sel = Some y"
    and "a \<noteq> b" and "\<not> nestedIn d a b" and "\<not> nestedIn d b a"
  shows "x \<noteq> y"
proof
  assume "x = y"
  then have "below (nodes d) a x" "below (nodes d) b x"
    using assms(2,3) querySelectorIn_below by blast+
  then have "a = b \<or> below (nodes d) a b \<or> below (nodes d) b a"
    using assms(1) below_chain by blast
  then show False using assms(4,5,6) by (simp add: nestedIn_def descendants_complete)
qed

section \<open>The theme loop\<close>

lemma icons_nonempty: "SUN_SVG \<noteq> []" "MOON_SVG \<noteq> []" "SUN_EMOJI \<noteq> []" "MOON_EMOJI \<noteq> []"
  by (simp_all add: SUN_SVG_def MOON_SVG_def SUN_EMOJI_def MOON_EMOJI_def)

lemma setIcon_updEl:
  "setIcon src theme r = updEl r (\<lambda>e. e\<lparr>childNodes := iconNodes src theme\<rparr>)"
  by (cases src) (simp_all add: iconNodes_def setInnerHTML_def setTextContent_def icons_nonempty)

lemma elemRefs_iconNodes [simp]: "elemRefs (iconNodes src theme) = []"
  by (cases src) (simp_all add: iconNodes_def)

lemma setIcon_shape: "map shape (nodes (setIcon src theme x d)) = map shape (nodes d)"
  unfolding setIcon_updEl by (rule updEl_shape) (simp add: shape_def)

lemma icon_loop_shape: "map shape (nodes (fold (setIcon src theme) xs d)) = map shape (nodes d)"
  by (rule fold_invariant [where P = "\<lambda>d'. map shape (nodes d') = map shape (nodes d)"])
     (simp_all add: setIcon_shape)

lemma icon_loop_fields:
  "documentElement (fold (setIcon src theme) xs d) = documentElement d \<and>
   localStorage (fold (setIcon src theme) xs d) = localStorage d \<and>
   listeners (fold (setIcon src theme) xs d) = listeners d \<and>
   observed (fold (setIcon src theme) xs d) = observed d"
  by (rule fold_invariant [where P = "\<lambda>d'. documentElement d' = documentElement d \<and>
        localStorage d' = localStorage d \<and> listeners d' = listeners d \<and>
        observed d' = observed d"])
     (simp_all add: setIcon_updEl)

lemma icon_loop_frame:
  "k \<notin> set xs \<Longrightarrow> nodes (fold (setIcon src theme) xs d) ! k = nodes d ! k"
  by (rule fold_frame) (simp_all add: setIcon_updEl updEl_other)

lemma icon_loop_same:
  assumes "r \<in> set xs" and "r < length (nodes d)"
  shows "childNodes (nodes (fold (setIcon src theme) xs d) ! r) = iconNodes src theme"
proof (rule fold_establish [where I = "\<lambda>d'::page. length (nodes d') = length (nodes d)"
      and Q = "\<lambda>d'. childNodes (nodes d' ! r) = iconNodes src theme" and r = r])
  show "r \<in> set xs" by fact
  show "length (nodes d) = length (nodes d)" by simp
  show "\<And>x (d'::page). length (nodes d') = length (nodes d) \<Longrightarrow>
          length (nodes (setIcon src theme x d')) = length (nodes d)"
    by (simp add: setIcon_updEl)
  show "\<And>d'::page. length (nodes d') = length (nodes d) \<Longrightarrow>
          childNodes (nodes (setIcon src theme r d') ! r) = iconNodes src theme"
    using assms(2) by (simp add: setIcon_updEl updEl_same)
  show "\<And>x (d'::page). length (nodes d') = length (nodes d) \<Longrightarrow>
          childNodes (nodes d' ! r) = iconNodes src theme \<Longrightarrow>
          childNodes (nodes (setIcon src theme x d') ! r) = iconNodes src theme"
    using assms(2) by (case_tac "x = r") (simp_all add: setIcon_updEl updEl_same updEl_other)
qed

lemma icon_loop_children:
  assumes "k < length (nodes d)"
  shows "set (elemRefs (childNodes (nodes (fold (setIcon src theme) xs d) ! k)))
         \<subseteq> set (elemRefs (childNodes (nodes d ! k)))"
proof (cases "k \<in> set xs")
  case True
  then show ?thesis using assms by (simp add: icon_loop_same)
next
  case False
  then show ?thesis by (simp add: icon_loop_frame)
qed

text \<open>After the loop, every theme button that is still in the document holds the icon.\<close>

lemma icon_loop_twice:
  fixes d1 :: page and theme :: string and src :: source
  defines "d2 \<equiv> fold (setIcon src theme) (querySelectorAll d1 themeToggles) d1"
  assumes x: "x \<in> set (querySelectorAll d2 themeToggles)"
  shows "childNodes (nodes d2 ! x) = iconNodes src theme"
proof -
  have sh: "map shape (nodes d2) = map shape (nodes d1)"
    by (simp add: d2_def icon_loop_shape)
  have "set (querySelectorAll d2 themeToggles) \<subseteq> set (querySelectorAll d1 themeToggles)"
    using sh
  proof (rule querySelectorAll_mono)
    show "documentElement d2 = documentElement d1" by (simp add: d2_def icon_loop_fields)
    show "\<And>k. k < length (nodes d1) \<Longrightarrow>
       set (elemRefs (childNodes (nodes d2 ! k))) \<subseteq> set (elemRefs (childNodes (nodes d1 ! k)))"
      unfolding d2_def by (rule icon_loop_children)
  qed
  with x have x1: "x \<in> set (querySelectorAll d1 themeToggles)" by blast
  then have "x < length (nodes d1)" using querySelectorAll_valid by blast
  with x1 show ?thesis
    unfolding d2_def by (rule icon_loop_same)
qed

lemma applyTheme_nodes:
  "nodes (applyTheme src m d) =
   nodes (fold (setIcon src m)
     (querySelectorAll (setAttribute (documentElement d) ''data-theme''
        (if m = ''dark'' then ''dark'' else ''light'') d) themeToggles)
     (setAttribute (documentElement d) ''data-theme''
        (if m = ''dark'' then ''dark'' else ''light'') d))"
  by (simp add: applyTheme_def forEach_def Let_def)

lemma applyTheme_attr:
  assumes "documentElement d < length (nodes d)"
  shows "getAttribute (applyTheme src m d) (documentElement d) ''data-theme'' =
         Some (if m = ''dark'' then ''dark'' else ''light'')"
proof -
  let ?v = "if m = ''dark'' then ''dark'' else ''light''"
  let ?d1 = "setAttribute (documentElement d) ''data-theme'' ?v d"
  let ?d2 = "fold (setIcon src m) (querySelectorAll ?d1 themeToggles) ?d1"
  have v1: "documentElement d < length (nodes ?d1)"
    using assms by (simp add: setAttribute_def)
  have sh: "map shape (nodes ?d2) = map shape (nodes ?d1)" by (rule icon_loop_shape)
  then have len: "length (nodes ?d2) = length (nodes ?d1)" by (rule map_eq_imp_length_eq)
  have "shape (nodes ?d2 ! documentElement d) = shape (nodes ?d1 ! documentElement d)"
    using sh v1 by (rule shape_nth)
  moreover have "attributes (nodes ?d1 ! documentElement d) ''data-theme'' = Some ?v"
    using assms by (rule setAttribute_get)
  ultimately have "attributes (nodes ?d2 ! documentElement d) ''data-theme'' = Some ?v"
    by (simp add: shape_def)
  moreover have "nodes (applyTheme src m d) = nodes ?d2" by (rule applyTheme_nodes)
  ultimately show ?thesis using len v1 by (simp add: getAttribute_def)
qed

lemma applyTheme_storage:
  "localStorage (applyTheme src m d) = (localStorage d)(LS_THEME \<mapsto> m)"
  by (simp add: applyTheme_def forEach_def Let_def setItem_def icon_loop_fields setAttribute_def)

lemma applyTheme_root: "documentElement (applyTheme src m d) = documentElement d"
  by (simp add: applyTheme_def forEach_def Let_def setItem_def icon_loop_fields setAttribute_def)

section \<open>The click handlers\<close>

lemma classList_toggle_nodes:
  "classList (nodes (fst (classList_toggle r c d)) ! k) =
     (if k = r \<and> r < length (nodes d)
      then (if c \<in> classList (nodes d ! r) then classList (nodes d ! r) - {c}
            else insert c (classList (nodes d ! r)))
      else classList (nodes d ! k))"
  by (auto simp: classList_toggle_def hasClass_def classList_add_def classList_remove_def
        updEl_same updEl_other updEl_def)

lemma classList_toggle_snd: "snd (classList_toggle r c d) = (\<not> hasClass d r c)"
  by (simp add: classList_toggle_def)

lemma classList_toggle_length [simp]:
  "length (nodes (fst (classList_toggle r c d))) = length (nodes d)"
  by (simp add: classList_toggle_def classList_add_def classList_remove_def)

lemma classList_toggle_field:
  assumes "\<And>e S. g (e\<lparr>classList := S\<rparr>) = g e"
  shows "g (nodes (fst (classList_toggle r c d)) ! k) = g (nodes d ! k)"
proof -
  have "g (nodes (updEl r f d) ! k) = g (nodes d ! k)" if "\<And>e. g (f e) = g e" for f
    using that by (rule updEl_field)
  then show ?thesis
    using assms by (simp add: classList_toggle_def classList_add_def classList_remove_def)
qed

lemmas classList_toggle_keeps =
  classList_toggle_field [where g = attributes] classList_toggle_field [where g = maxHeight]
  classList_toggle_field [where g = scrollHeight] classList_toggle_field [where g = childNodes]

lemma accordionClick_unfold:
  "accordionClick item btn panel d =
    (let d1 = fst (classList_toggle item ''open'' d);
         isOpen = \<not> hasClass d item ''open'';
         d2 = setAttribute btn ''aria-expanded'' (if isOpen then ''true'' else ''false'') d1
     in setMaxHeight panel
          (if isOpen then numberToString (scrollHeight (nodes d2 ! panel)) @ ''px'' else []) d2)"
  by (simp add: accordionClick_def Let_def split_beta classList_toggle_snd)

lemma accordionClick_open:
  assumes "item < length (nodes d)" and "btn < length (nodes d)" and "panel < length (nodes d)"
    and "\<not> hasClass d item ''open''"
  shows "hasClass (accordionClick item btn panel d) item ''open''"
    and "getAttribute (accordionClick item btn panel d) btn ''aria-expanded'' = Some ''true''"
    and "maxHeight (nodes (accordionClick item btn panel d) ! panel)
           = numberToString (scrollHeight (nodes d ! panel)) @ ''px''"
proof -
  let ?d1 = "fst (classList_toggle item ''open'' d)"
  let ?d2 = "setAttribute btn ''aria-expanded'' ''true'' ?d1"
  let ?d3 = "setMaxHeight panel (numberToString (scrollHeight (nodes ?d2 ! panel)) @ ''px'') ?d2"
  have eq: "accordionClick item btn panel d = ?d3"
    using assms(4) by (simp add: accordionClick_unfold Let_def)
  have len: "length (nodes ?d3) = length (nodes d)"
    by (simp add: setMaxHeight_def setAttribute_def)
  have "classList (nodes ?d3 ! item) = insert ''open'' (classList (nodes d ! item))"
    using assms(1,4)
    by (simp add: setMaxHeight_def setAttribute_def updEl_field classList_toggle_nodes hasClass_def)
  then show "hasClass (accordionClick item btn panel d) item ''open''"
    unfolding eq using len assms(1) by (simp add: hasClass_def)
  have "attributes (nodes ?d3 ! btn) ''aria-expanded'' = Some ''true''"
    using assms(2) setAttribute_get [of btn ?d1 "''aria-expanded''" "''true''"]
    by (simp add: setMaxHeight_def updEl_field)
  then show "getAttribute (accordionClick item btn panel d) btn ''aria-expanded'' = Some ''true''"
    unfolding eq using len assms(2) by (simp add: getAttribute_def)
  have sh: "scrollHeight (nodes ?d2 ! panel) = scrollHeight (nodes d ! panel)"
    by (simp add: setAttribute_def updEl_field classList_toggle_field)
  have "maxHeight (nodes ?d3 ! panel) = numberToString (scrollHeight (nodes ?d2 ! panel)) @ ''px''"
    using assms(3) by (simp add: setMaxHeight_def setAttribute_def updEl_same)
  then show "maxHeight (nodes (accordionClick item btn panel d) ! panel)
           = numberToString (scrollHeight (nodes d ! panel)) @ ''px''"
    unfolding eq using sh by simp
qed

lemma accordionClick_close:
  assumes "item < length (nodes d)" and "btn < length (nodes d)" and "panel < length (nodes d)"
    and "hasClass d item ''open''"
  shows "\<not> hasClass (accordionClick item btn panel d) item ''open''"
    and "getAttribute (accordionClick item btn panel d) btn ''aria-expanded'' = Some ''false''"
    and "maxHeight (nodes (accordionClick item btn panel d) ! panel) = []"
proof -
  let ?d1 = "fst (classList_toggle item ''open'' d)"
  let ?d2 = "setAttribute btn ''aria-expanded'' ''false'' ?d1"
  let ?d3 = "setMaxHeight panel [] ?d2"
  have eq: "accordionClick item btn panel d = ?d3"
    using assms(4) by (simp add: accordionClick_unfold Let_def)
  have len: "length (nodes ?d3) = length (nodes d)"
    by (simp add: setMaxHeight_def setAttribute_def)
  have "classList (nodes ?d3 ! item) = classList (nodes d ! item) - {''open''}"
    using assms(1,4)
    by (simp add: setMaxHeight_def setAttribute_def updEl_field classList_toggle_nodes hasClass_def)
  then show "\<not> hasClass (accordionClick item btn panel d) item ''open''"
    unfolding eq by (simp add: hasClass_def)
  have "attributes (nodes ?d3 ! btn) ''aria-expanded'' = Some ''false''"
    using assms(2) setAttribute_get [of btn ?d1 "''aria-expanded''" "''false''"]
    by (simp add: setMaxHeight_def updEl_field)
  then show "getAttribute (accordionClick item btn panel d) btn ''aria-expanded'' = Some ''false''"
    unfolding eq using len assms(2) by (simp add: getAttribute_def)
  show "maxHeight (nodes (accordionClick item btn panel d) ! panel) = []"
    unfolding eq using assms(3) by (simp add: setMaxHeight_def setAttribute_def updEl_same)
qed

lemma classList_add_hasClass:
  "hasClass d r c \<Longrightarrow> hasClass (classList_add x c' d) r c"
  by (cases "r = x") (auto simp: hasClass_def classList_add_def updEl_same updEl_other)

lemma observerCallback_keeps:
  "hasClass d r c \<Longrightarrow> hasClass (observerCallback es d) r c"
  unfolding observerCallback_def forEach_def
  by (rule fold_invariant [where P = "\<lambda>d. hasClass d r c"])
     (simp_all add: classList_add_hasClass)

lemma listeners_add_loop:
  "listeners (fold (\<lambda>a. addEventListener a l) xs d) = listeners d @ map (\<lambda>a. (a, l)) xs"
  by (induction xs arbitrary: d) (simp_all add: addEventListener_def)

section \<open>The setup functions leave the document alone\<close>

lemma sameDocument_refl [simp]: "sameDocument d d"
  by (simp add: sameDocument_def)

lemma addEventListener_same: "sameDocument d d' \<Longrightarrow> sameDocument d (addEventListener r l d')"
  by (simp add: sameDocument_def addEventListener_def)

lemma observe_same: "sameDocument d d' \<Longrightarrow> sameDocument d (observe r d')"
  by (simp add: sameDocument_def observe_def)

lemma setupItem_same: "sameDocument d d' \<Longrightarrow> sameDocument d (setupItem item d')"
  by (simp add: setupItem_def addEventListener_same split: option.splits)

lemma setupObserver_same: "sameDocument d (setupObserver d)"
  unfolding setupObserver_def forEach_def
  by (rule fold_invariant [where P = "sameDocument d"]) (simp_all add: observe_same)

lemma click_loop_same: "sameDocument d d' \<Longrightarrow> sameDocument d (fold (\<lambda>a. addEventListener a l) xs d')"
  by (rule fold_invariant [where P = "sameDocument d"]) (simp_all add: addEventListener_same)

lemma setupNavToggle_same: "sameDocument d (setupNavToggle d)"
  by (simp add: setupNavToggle_def forEach_def Let_def click_loop_same addEventListener_same
      split: option.splits)

lemma items_loop_same: "sameDocument d d' \<Longrightarrow> sameDocument d (fold setupItem xs d')"
  by (rule fold_invariant [where P = "sameDocument d"]) (simp_all add: setupItem_same)

lemma setupAccordion_same: "sameDocument d (setupAccordion src d)"
proof (cases src)
  case Script_js
  have "sameDocument d (fold (\<lambda>container d'. fold setupItem (g d' container) d') xs d)" for g xs
    by (rule fold_invariant [where P = "sameDocument d"]) (simp_all add: items_loop_same)
  then show ?thesis using Script_js by (simp add: forEach_def)
next
  case Part_000
  then show ?thesis by (simp add: forEach_def items_loop_same split: option.splits)
qed

lemma setYear_storage: "localStorage (setYear y d) = localStorage d"
  by (simp add: setYear_def Let_def setTextContent_def split: option.splits)

lemma setYear_root:
  "documentElement (setYear y d) = documentElement d \<and>
   length (nodes (setYear y d)) = length (nodes d)"
  by (simp add: setYear_def Let_def setTextContent_def split: option.splits)

text \<open>The page after the load handler, up to the listeners it registers last.\<close>

lemma onDOMContentLoaded_stages:
  fixes d :: page and e :: env and src :: source
  defines "d4 \<equiv> setupAccordion src (setupNavToggle (setupObserver (setYear (year e) d)))"
  defines "d5 \<equiv> applyLanguage (savedLang d4) d4"
  defines "d6 \<equiv> applyTheme src (savedTheme src e d5) d5"
  shows "sameDocument d6 (onDOMContentLoaded src e d)"
    and "localStorage d4 = localStorage d"
    and "documentElement d4 = documentElement d"
    and "length (nodes d4) = length (nodes d)"
proof -
  let ?d1 = "setYear (year e) d"
  let ?d2 = "setupObserver ?d1"
  let ?d3 = "setupNavToggle ?d2"
  have s: "sameDocument ?d1 ?d2" "sameDocument ?d2 ?d3" "sameDocument ?d3 d4"
    by (simp_all add: d4_def setupObserver_same setupNavToggle_same setupAccordion_same)
  then show "localStorage d4 = localStorage d" "documentElement d4 = documentElement d"
    "length (nodes d4) = length (nodes d)"
    by (simp_all add: sameDocument_def setYear_storage setYear_root)
  let ?d7 = "fold (\<lambda>btn. addEventListener btn LangToggleClick) (querySelectorAll d6 langToggles) d6"
  have 7: "sameDocument d6 ?d7" by (simp add: click_loop_same)
  have 8: "sameDocument ?d7
     (fold (\<lambda>btn. addEventListener btn ThemeToggleClick) (querySelectorAll ?d7 themeToggles) ?d7)"
    by (simp add: click_loop_same)
  have "onDOMContentLoaded src e d =
     fold (\<lambda>btn. addEventListener btn ThemeToggleClick) (querySelectorAll ?d7 themeToggles) ?d7"
    by (simp add: onDOMContentLoaded_def Let_def forEach_def d6_def d5_def d4_def)
  then show "sameDocument d6 (onDOMContentLoaded src e d)"
    using 7 8 by (simp add: sameDocument_def)
qed

text \<open>The handler of an item changes the classes of the item, the attributes of its control and
  the height override of its panel, and nothing else.\<close>

lemma accordionClick_touches:
  "(itemB \<noteq> itemA \<longrightarrow>
      classList (nodes (handleEvent src (AccordionClick itemA btnA panelA) d) ! itemB) =
      classList (nodes d ! itemB))
 \<and> (btnB \<noteq> btnA \<longrightarrow>
      attributes (nodes (handleEvent src (AccordionClick itemA btnA panelA) d) ! btnB) =
      attributes (nodes d ! btnB))
 \<and> (panelB \<noteq> panelA \<longrightarrow>
      maxHeight (nodes (handleEvent src (AccordionClick itemA btnA panelA) d) ! panelB) =
      maxHeight (nodes d ! panelB))"
proof (intro conjI impI)
  assume "itemB \<noteq> itemA"
  then show "classList (nodes (handleEvent src (AccordionClick itemA btnA panelA) d) ! itemB) =
      classList (nodes d ! itemB)"
    by (simp add: accordionClick_unfold Let_def setMaxHeight_def setAttribute_def updEl_keeps
          classList_toggle_nodes)
next
  assume "btnB \<noteq> btnA"
  then show "attributes (nodes (handleEvent src (AccordionClick itemA btnA panelA) d) ! btnB) =
      attributes (nodes d ! btnB)"
    by (simp add: accordionClick_unfold Let_def setMaxHeight_def setAttribute_def updEl_keeps
          updEl_other classList_toggle_keeps)
next
  assume "panelB \<noteq> panelA"
  then show "maxHeight (nodes (handleEvent src (AccordionClick itemA btnA panelA) d) ! panelB) =
      maxHeight (nodes d ! panelB)"
    by (simp add: accordionClick_unfold Let_def setMaxHeight_def setAttribute_def updEl_keeps
          updEl_other classList_toggle_keeps)
qed

section \<open>Clicks and registrations\<close>

subsection \<open>What a click runs\<close>

lemma listenersOn_cong: "listeners d' = listeners d \<Longrightarrow> listenersOn d' r = listenersOn d r"
  by (simp add: listenersOn_def)

lemma click_single:
  assumes "listenersOn d t = [l]"
    and "\<forall>a \<in> set (ancestors (length (nodes d)) (nodes d) t). listenersOn d a = []"
    and "listeners (handleEvent src l d) = listeners d"
  shows "click src t d = handleEvent src l d"
proof -
  let ?run = "\<lambda>node d'. fold (handleEvent src) (listenersOn d' node) d'"
  have "fold ?run (ancestors (length (nodes d)) (nodes d) t) (handleEvent src l d)
        = handleEvent src l d"
  proof (rule fold_id)
    fix x assume "x \<in> set (ancestors (length (nodes d)) (nodes d) t)"
    then have "listenersOn (handleEvent src l d) x = []"
      using assms(2,3) listenersOn_cong by metis
    then show "?run x (handleEvent src l d) = handleEvent src l d" by simp
  qed
  then show ?thesis by (simp add: click_def forEach_def assms(1))
qed

lemma classList_toggle_listeners [simp]:
  "listeners (fst (classList_toggle r c d)) = listeners d"
  by (simp add: classList_toggle_def classList_add_def classList_remove_def)

lemma accordionClick_listeners: "listeners (accordionClick item btn panel d) = listeners d"
  by (simp add: accordionClick_unfold Let_def setMaxHeight_def setAttribute_def)

lemma navLinkClick_listeners: "listeners (navLinkClick nav d) = listeners d"
  by (simp add: navLinkClick_def classList_remove_def)

subsection \<open>What setupAccordion registers\<close>

lemma queries_same:
  assumes "sameDocument d d'"
  shows "querySelectorAllIn d' x sel = querySelectorAllIn d x sel"
    and "querySelectorIn d' x sel = querySelectorIn d x sel"
  using assms
  by (simp_all add: sameDocument_def querySelectorIn_def querySelectorAllIn_def selectFrom_def)

lemma setupItem_listeners:
  "sameDocument d d' \<Longrightarrow> listeners (setupItem item d') = listeners d' @ itemListeners d item"
  by (simp add: setupItem_def itemListeners_def queries_same addEventListener_def
      split: option.splits)

lemma items_loop_listeners:
  "sameDocument d d' \<Longrightarrow>
   listeners (fold setupItem xs d') = listeners d' @ concat (map (itemListeners d) xs)"
proof (induction xs arbitrary: d')
  case Nil
  then show ?case by simp
next
  case (Cons x xs)
  have "sameDocument d (setupItem x d')" using Cons.prems by (rule setupItem_same)
  then show ?case using Cons.IH [of "setupItem x d'"] Cons.prems
    by (simp add: setupItem_listeners)
qed

lemma groups_loop_listeners:
  "sameDocument d d' \<Longrightarrow>
   listeners (fold (\<lambda>container p.
       fold setupItem (querySelectorAllIn p container (ByClass ''accordion-item'')) p) cs d')
   = listeners d' @ concat (map (itemListeners d)
       (concat (map (\<lambda>container. querySelectorAllIn d container (ByClass ''accordion-item'')) cs)))"
proof (induction cs arbitrary: d')
  case Nil
  then show ?case by simp
next
  case (Cons c cs)
  let ?d1 = "fold setupItem (querySelectorAllIn d c (ByClass ''accordion-item'')) d'"
  have s: "sameDocument d ?d1" using Cons.prems by (rule items_loop_same)
  have q: "querySelectorAllIn d' c (ByClass ''accordion-item'')
         = querySelectorAllIn d c (ByClass ''accordion-item'')"
    using Cons.prems by (rule queries_same)
  show ?case using Cons.IH [OF s] items_loop_listeners [OF Cons.prems] by (simp add: q)
qed

lemma setupAccordion_listeners:
  "listeners (setupAccordion src d) =
   listeners d @ concat (map (itemListeners d) (accordionItems src d))"
proof (cases src)
  case Script_js
  then show ?thesis using groups_loop_listeners [of d d] by (simp add: forEach_def)
next
  case Part_000
  then show ?thesis using items_loop_listeners [of d d]
    by (simp add: forEach_def split: option.splits)
qed

lemma accordionItems_valid: "item \<in> set (accordionItems src d) \<Longrightarrow> item < length (nodes d)"
  by (cases src) (auto simp: querySelectorAllIn_def in_selectFrom split: option.splits)

lemma querySelectorIn_valid: "querySelectorIn d x sel = Some r \<Longrightarrow> r < length (nodes d)"
proof -
  assume "querySelectorIn d x sel = Some r"
  then have "r \<in> set (querySelectorAllIn d x sel)"
    by (auto simp: querySelectorIn_def split: list.splits)
  then show ?thesis by (simp add: querySelectorAllIn_def in_selectFrom)
qed

section \<open>The claims\<close>

subsection \<open>Language\<close>

text \<open>
  C1, as amended. Take an element of the document that carries \<open>data-en\<close>. After
  \<open>applyLanguage('ml')\<close> it holds exactly the text of its \<open>data-ml\<close> attribute when it
  has one and of its \<open>data-en\<close> attribute otherwise, and after \<open>applyLanguage('en')\<close>
  exactly the text of its \<open>data-en\<close> attribute; unless the element is a language
  button (id \<open>lang-toggle\<close> or \<open>lang-toggle-2\<close>) that is still in the document when the
  first loop of \<open>applyLanguage\<close> has given the \<open>data-en\<close> elements their text. Such a
  button holds the label instead: \<open>ML\<close> after \<open>applyLanguage('ml')\<close>, \<open>EN\<close> after
  \<open>applyLanguage('en')\<close>.
\<close>

theorem applyLanguage_text:
  assumes "el \<in> set (querySelectorAll d (HasAttr ''data-en''))"
  shows "childNodes (nodes (applyLanguage ''ml'' d) ! el) =
           (if el \<in> set (querySelectorAll (translated ''ml'' d) langToggles)
            then textNodes ''ML''
            else textNodes (case getAttribute d el ''data-ml'' of
                              Some ml \<Rightarrow> ml | None \<Rightarrow> the (getAttribute d el ''data-en'')))
       \<and> childNodes (nodes (applyLanguage ''en'' d) ! el) =
           (if el \<in> set (querySelectorAll (translated ''en'' d) langToggles)
            then textNodes ''EN''
            else textNodes (the (getAttribute d el ''data-en'')))"
proof -
  from assms have v: "el < length (nodes d)" and "matches (HasAttr ''data-en'') (nodes d ! el)"
    using querySelectorAll_valid by blast+
  then obtain en where en: "attributes (nodes d ! el) ''data-en'' = Some en" by auto
  have t: "childNodes (nodes (translated lang d) ! el) =
      textNodes (case attributes (nodes d ! el) ''data-ml'' of
                 Some ml \<Rightarrow> if lang = ''ml'' then ml else en | None \<Rightarrow> en)" for lang
    using translate_loop [OF assms v en] by (simp add: translated_def forEach_def)
  show ?thesis
    using applyLanguage_at [OF v, of "''ml''"] applyLanguage_at [OF v, of "''en''"]
      t [of "''ml''"] t [of "''en''"] v en
    by (simp add: getAttribute_def split: option.splits)
qed

text \<open>
  On the sample page the first navigation link has both texts. On the page with the
  nested button, the language button lies inside an element that carries \<open>data-en\<close>:
  the first loop removes it from the document, and it keeps the text of its own
  attributes. On the page with the two buttons, the button that carries \<open>data-en\<close>
  stays in the document and ends with the label.
\<close>

theorem applyLanguage_text_witness:
  "4 \<in> set (querySelectorAll samplePage (HasAttr ''data-en''))
 \<and> childNodes (nodes (applyLanguage ''ml'' samplePage) ! 4) = [TextChild ''Veedu'']
 \<and> childNodes (nodes (applyLanguage ''en'' samplePage) ! 4) = [TextChild ''Home'']
 \<and> 2 \<in> set (querySelectorAll nestedTogglePage (HasAttr ''data-en''))
 \<and> matches langToggles (nodes nestedTogglePage ! 2)
 \<and> childNodes (nodes (applyLanguage ''ml'' nestedTogglePage) ! 2) = [TextChild ''Bhasha'']
 \<and> childNodes (nodes (applyLanguage ''en'' nestedTogglePage) ! 2) = [TextChild ''Language'']
 \<and> 1 \<in> set (querySelectorAll togglePage (HasAttr ''data-en''))
 \<and> 1 \<in> set (querySelectorAll (translated ''ml'' togglePage) langToggles)
 \<and> childNodes (nodes (applyLanguage ''ml'' togglePage) ! 1) = [TextChild ''ML'']"
proof -
  have h: "4 \<in> set (querySelectorAll samplePage (HasAttr ''data-en''))" by code_simp
  have n: "4 \<notin> set (querySelectorAll (translated ''ml'' samplePage) langToggles)"
    "4 \<notin> set (querySelectorAll (translated ''en'' samplePage) langToggles)"
    by code_simp+
  have a: "getAttribute samplePage 4 ''data-ml'' = Some ''Veedu''"
    "getAttribute samplePage 4 ''data-en'' = Some ''Home''"
    by code_simp+
  have h': "2 \<in> set (querySelectorAll nestedTogglePage (HasAttr ''data-en''))" by code_simp
  have m': "matches langToggles (nodes nestedTogglePage ! 2)" by code_simp
  have n': "2 \<notin> set (querySelectorAll (translated ''ml'' nestedTogglePage) langToggles)"
    "2 \<notin> set (querySelectorAll (translated ''en'' nestedTogglePage) langToggles)"
    by code_simp+
  have a': "getAttribute nestedTogglePage 2 ''data-ml'' = Some ''Bhasha''"
    "getAttribute nestedTogglePage 2 ''data-en'' = Some ''Language''"
    by code_simp+
  have h'': "1 \<in> set (querySelectorAll togglePage (HasAttr ''data-en''))" by code_simp
  have t'': "1 \<in> set (querySelectorAll (translated ''ml'' togglePage) langToggles)"
    by code_simp
  show ?thesis
    using applyLanguage_text [OF h] applyLanguage_text [OF h'] applyLanguage_text [OF h'']
      h h' m' h'' t''
    by (simp add: n a n' a' textNodes_def)
qed

text \<open>
  C1 as stated fails for a language button that carries \<open>data-en\<close>: the first loop
  gives it its \<open>data-en\<close> text, the second loop then replaces that by the label.
\<close>

theorem applyLanguage_text_counterexample:
  "1 \<in> set (querySelectorAll togglePage (HasAttr ''data-en''))
 \<and> getAttribute togglePage 1 ''data-en'' = Some ''Language''
 \<and> childNodes (nodes (applyLanguage ''en'' togglePage) ! 1) = [TextChild ''EN'']"
  by code_simp

text \<open>
  C10, as amended. Take an element without a \<open>data-en\<close> attribute, with or without
  \<open>data-ml\<close>, and any language code. \<open>applyLanguage\<close> leaves the element as it is
  (its attributes, classes, style and own child nodes), unless it is a language button
  that is still in the document when the first loop of \<open>applyLanguage\<close> has given the
  \<open>data-en\<close> elements their text. Of such a button the child nodes are replaced by the
  label, \<open>ML\<close> for the code \<open>ml\<close> and \<open>EN\<close> for any other code, and nothing else of it
  changes.
\<close>

theorem applyLanguage_frame:
  assumes "k < length (nodes d)" and "getAttribute d k ''data-en'' = None"
  shows "nodes (applyLanguage lang d) ! k =
    (if k \<in> set (querySelectorAll (translated lang d) langToggles)
     then (nodes d ! k)\<lparr>childNodes := textNodes (if lang = ''ml'' then ''ML'' else ''EN'')\<rparr>
     else nodes d ! k)"
proof -
  have "k \<notin> set (querySelectorAll d (HasAttr ''data-en''))"
    using assms querySelectorAll_valid [of k d "HasAttr ''data-en''"]
    by (auto simp: getAttribute_def)
  then have "nodes (translated lang d) ! k = nodes d ! k"
    by (simp add: translated_def forEach_def translate_loop_frame)
  then show ?thesis using applyLanguage_at [OF assms(1), of lang] by simp
qed

text \<open>
  On the sample page the menu button is left as it is, and the language button, which
  has no \<open>data-en\<close>, gets the label.
\<close>

theorem applyLanguage_frame_witness:
  "2 < length (nodes samplePage)
 \<and> getAttribute samplePage 2 ''data-en'' = None
 \<and> nodes (applyLanguage ''ml'' samplePage) ! 2 = nodes samplePage ! 2
 \<and> 6 < length (nodes samplePage)
 \<and> getAttribute samplePage 6 ''data-en'' = None
 \<and> 6 \<in> set (querySelectorAll (translated ''ml'' samplePage) langToggles)
 \<and> nodes (applyLanguage ''ml'' samplePage) ! 6 =
     (nodes samplePage ! 6)\<lparr>childNodes := [TextChild ''ML'']\<rparr>"
proof -
  have h: "2 < length (nodes samplePage)" "getAttribute samplePage 2 ''data-en'' = None"
    by code_simp+
  have n: "2 \<notin> set (querySelectorAll (translated ''ml'' samplePage) langToggles)"
    by code_simp
  have h': "6 < length (nodes samplePage)" "getAttribute samplePage 6 ''data-en'' = None"
    by code_simp+
  have t': "6 \<in> set (querySelectorAll (translated ''ml'' samplePage) langToggles)"
    by code_simp
  show ?thesis
    using applyLanguage_frame [OF h, of "''ml''"] applyLanguage_frame [OF h', of "''ml''"]
      h h' t'
    by (simp add: n textNodes_def)
qed

text \<open>
  C10 as stated fails for a language button without \<open>data-en\<close>: its text is replaced
  by the label of the language.
\<close>

theorem applyLanguage_frame_counterexample:
  "getAttribute togglePage 2 ''data-en'' = None
 \<and> childNodes (nodes togglePage ! 2) = [TextChild ''EN'']
 \<and> childNodes (nodes (applyLanguage ''ml'' togglePage) ! 2) = [TextChild ''ML'']"
  by code_simp

subsection \<open>Preferences\<close>

text \<open>
  C2, as amended. At page load the language that is resolved, applied and stored again
  is the stored value itself whenever one is stored and is not the empty string, and
  the fallback \<open>en\<close> otherwise; likewise the theme is the stored value itself, or else
  the fallback, which is \<open>dark\<close> in \<open>script.js\<close> and follows the ambient colour scheme in
  the older version. So each is one of the two supported values when the stored value
  is one of them, absent or empty. Whatever is stored, the \<open>data-theme\<close> attribute put
  on the document is \<open>dark\<close> or \<open>light\<close>.
\<close>

theorem load_resolves_preferences:
  "getItem (onDOMContentLoaded src e d) LS_LANG =
      Some (case getItem d LS_LANG of
              None \<Rightarrow> ''en'' | Some s \<Rightarrow> if s = [] then ''en'' else s)
 \<and> getItem (onDOMContentLoaded src e d) LS_THEME =
      Some (case getItem d LS_THEME of
              None \<Rightarrow> defaultTheme src e | Some s \<Rightarrow> if s = [] then defaultTheme src e else s)
 \<and> defaultTheme Script_js e = ''dark''
 \<and> defaultTheme Part_000 e = (if prefersDark e = Some True then ''dark'' else ''light'')
 \<and> (documentElement d < length (nodes d) \<longrightarrow>
      getAttribute (onDOMContentLoaded src e d) (documentElement d) ''data-theme''
        \<in> {Some ''dark'', Some ''light''})"
proof -
  define d4 where "d4 = setupAccordion src (setupNavToggle (setupObserver (setYear (year e) d)))"
  define d5 where "d5 = applyLanguage (savedLang d4) d4"
  define d6 where "d6 = applyTheme src (savedTheme src e d5) d5"
  note st = onDOMContentLoaded_stages [of src e d, folded d4_def, folded d5_def, folded d6_def]
  have l5: "localStorage d5 = (localStorage d)(LS_LANG \<mapsto> savedLang d4)"
    by (simp add: d5_def applyLanguage_storage st)
  have l6: "localStorage d6 = (localStorage d5)(LS_THEME \<mapsto> savedTheme src e d5)"
    by (simp add: d6_def applyTheme_storage)
  have sl: "savedLang d4 = orElse (getItem d LS_LANG) ''en''"
    by (simp add: savedLang_def getItem_def st)
  have sth: "savedTheme src e d5 = orElse (getItem d LS_THEME) (defaultTheme src e)"
    using keys_differ by (simp add: savedTheme_def getItem_def l5)
  have fin: "localStorage (onDOMContentLoaded src e d) = localStorage d6"
    "nodes (onDOMContentLoaded src e d) = nodes d6"
    using st(1) by (simp_all add: sameDocument_def)
  have a: "getItem (onDOMContentLoaded src e d) LS_LANG = Some (orElse (getItem d LS_LANG) ''en'')"
    using keys_differ by (simp add: getItem_def fin l6 l5 sl)
  have b: "getItem (onDOMContentLoaded src e d) LS_THEME =
           Some (orElse (getItem d LS_THEME) (defaultTheme src e))"
    by (simp add: getItem_def fin l6 sth)
  have c: "getAttribute (onDOMContentLoaded src e d) (documentElement d) ''data-theme''
        \<in> {Some ''dark'', Some ''light''}" if "documentElement d < length (nodes d)"
  proof -
    have r5: "documentElement d5 = documentElement d" "length (nodes d5) = length (nodes d)"
      by (simp_all add: d5_def applyLanguage_root st)
    then have "getAttribute d6 (documentElement d5) ''data-theme'' =
         Some (if savedTheme src e d5 = ''dark'' then ''dark'' else ''light'')"
      unfolding d6_def using that by (intro applyTheme_attr) simp
    then show ?thesis by (auto simp: getAttribute_def fin r5 split: if_splits)
  qed
  show ?thesis using a b c by (simp add: orElse_def)
qed

text \<open>On the sample page nothing is stored: both fallbacks are taken, in either version.\<close>

theorem load_resolves_preferences_witness:
  "documentElement samplePage < length (nodes samplePage)
 \<and> getItem (onDOMContentLoaded Part_000 sampleEnv samplePage) LS_LANG = Some ''en''
 \<and> getItem (onDOMContentLoaded Part_000 sampleEnv samplePage) LS_THEME = Some ''light''
 \<and> getAttribute (onDOMContentLoaded Part_000 sampleEnv samplePage) 0 ''data-theme''
      \<in> {Some ''dark'', Some ''light''}"
proof -
  have h: "documentElement samplePage < length (nodes samplePage)" by code_simp
  have r: "documentElement samplePage = 0" by code_simp
  have s: "getItem samplePage LS_LANG = None" "getItem samplePage LS_THEME = None"
    by code_simp+
  have p: "prefersDark sampleEnv = Some False" by code_simp
  show ?thesis
    using load_resolves_preferences [of Part_000 sampleEnv samplePage] h
    by (simp add: r s p)
qed

text \<open>
  C2 as stated fails when the stored values are not supported ones: they are resolved,
  applied and stored again as they are, not replaced by the fallback.
\<close>

theorem load_resolves_preferences_counterexample:
  "getItem stalePage LS_LANG = Some ''fr''
 \<and> getItem stalePage LS_THEME = Some ''blue''
 \<and> savedLang stalePage = ''fr''
 \<and> savedTheme Script_js sampleEnv stalePage = ''blue''
 \<and> getItem (onDOMContentLoaded Script_js sampleEnv stalePage) LS_LANG = Some ''fr''
 \<and> getItem (onDOMContentLoaded Script_js sampleEnv stalePage) LS_THEME = Some ''blue''"
  by code_simp

text \<open>
  C3. After \<open>applyLanguage(L)\<close> a read of the stored language preference returns \<open>L\<close>,
  and after \<open>applyTheme(M)\<close> a read of the stored theme preference returns \<open>M\<close>, for
  every string \<open>L\<close> and \<open>M\<close> and in both versions of the script.
\<close>

theorem storage_roundtrip:
  "getItem (applyLanguage l d) LS_LANG = Some l \<and> getItem (applyTheme src m d) LS_THEME = Some m"
  by (simp add: applyLanguage_def applyTheme_def Let_def getItem_def setItem_def)

theorem storage_roundtrip_witness:
  "getItem (applyLanguage ''ml'' samplePage) LS_LANG = Some ''ml''
 \<and> getItem (applyTheme Script_js ''light'' samplePage) LS_THEME = Some ''light''"
  by (rule storage_roundtrip)

subsection \<open>Theme\<close>

text \<open>
  C4. \<open>applyTheme\<close> is idempotent: calling it twice with the same mode leaves the page
  in the state that one call leaves it in. The whole page state is the same, so in
  particular the theme attribute of the document, the content of every theme button
  and the stored theme preference are.
\<close>

theorem applyTheme_idempotent: "applyTheme src m (applyTheme src m d) = applyTheme src m d"
proof -
  define v where "v = (if m = ''dark'' then ''dark'' else ''light'')"
  define d1 where "d1 = setAttribute (documentElement d) ''data-theme'' v d"
  define d2 where "d2 = fold (setIcon src m) (querySelectorAll d1 themeToggles) d1"
  define d3 where "d3 = setItem LS_THEME m d2"
  have once: "applyTheme src m d = d3"
    by (simp add: applyTheme_def d3_def d2_def d1_def v_def forEach_def Let_def)
  have q: "querySelectorAll d3 sel = querySelectorAll d2 sel" for sel
    by (rule querySelectorAll_cong) (simp_all add: d3_def setItem_def)
  have root: "documentElement d3 = documentElement d"
    by (simp add: d3_def d2_def d1_def setItem_def icon_loop_fields setAttribute_def)
  have a3: "setAttribute (documentElement d3) ''data-theme'' v d3 = d3"
  proof (rule setAttribute_id)
    assume "documentElement d3 < length (nodes d3)"
    then have "documentElement d < length (nodes d)"
      using root icon_loop_shape [of src m "querySelectorAll d1 themeToggles" d1]
        map_eq_imp_length_eq [of shape "nodes d2" shape "nodes d1"]
      by (simp add: d3_def d2_def d1_def setAttribute_def)
    then have "getAttribute (applyTheme src m d) (documentElement d) ''data-theme'' = Some v"
      unfolding v_def by (rule applyTheme_attr)
    then show "attributes (nodes d3 ! documentElement d3) ''data-theme'' = Some v"
      using \<open>documentElement d3 < length (nodes d3)\<close>
      by (simp add: once root getAttribute_def)
  qed
  have l3: "fold (setIcon src m) (querySelectorAll d3 themeToggles) d3 = d3"
  proof (rule fold_id)
    fix x assume "x \<in> set (querySelectorAll d3 themeToggles)"
    then have "x \<in> set (querySelectorAll d2 themeToggles)" by (simp add: q)
    then have "childNodes (nodes d2 ! x) = iconNodes src m"
      unfolding d2_def by (rule icon_loop_twice)
    then have "childNodes (nodes d3 ! x) = iconNodes src m" by (simp add: d3_def)
    then show "setIcon src m x d3 = d3"
      unfolding setIcon_updEl by (intro updEl_id) simp
  qed
  have s: "setItem LS_THEME m d3 = d3"
    by (rule setItem_id) (simp add: d3_def setItem_def)
  have "applyTheme src m d3 = d3"
    using a3 l3 s unfolding v_def
    by (cases "m = ''dark''") (simp_all add: applyTheme_def forEach_def Let_def)
  then show ?thesis by (simp add: once)
qed

theorem applyTheme_idempotent_witness:
  "applyTheme Script_js ''dark'' (applyTheme Script_js ''dark'' samplePage) =
     applyTheme Script_js ''dark'' samplePage
 \<and> childNodes (nodes (applyTheme Script_js ''dark'' samplePage) ! 7) = [MarkupChild SUN_SVG]"
proof -
  have "childNodes (nodes (applyTheme Script_js ''dark'' samplePage) ! 7) = [MarkupChild SUN_SVG]"
    by code_simp
  then show ?thesis using applyTheme_idempotent [of Script_js "''dark''" samplePage] by simp
qed

text \<open>
  C9. For every mode \<open>M\<close> other than \<open>dark\<close>, \<open>applyTheme(M)\<close> sets the \<open>data-theme\<close>
  attribute of the document to \<open>light\<close> and stores \<open>M\<close> itself; so when \<open>M\<close> is not
  \<open>light\<close> either, the stored preference differs from the attribute that was applied.
\<close>

theorem applyTheme_persists_raw:
  assumes "m \<noteq> ''dark''" and "documentElement d < length (nodes d)"
  shows "getAttribute (applyTheme src m d) (documentElement d) ''data-theme'' = Some ''light''
       \<and> getItem (applyTheme src m d) LS_THEME = Some m
       \<and> (m \<noteq> ''light'' \<longrightarrow>
            getItem (applyTheme src m d) LS_THEME \<noteq>
            getAttribute (applyTheme src m d) (documentElement d) ''data-theme'')"
  using applyTheme_attr [OF assms(2), of src m] assms(1)
  by (simp add: applyTheme_def Let_def getItem_def setItem_def)

theorem applyTheme_persists_raw_witness:
  "''blue'' \<noteq> ''dark'' \<and> ''blue'' \<noteq> ''light''
 \<and> documentElement samplePage < length (nodes samplePage)
 \<and> getAttribute (applyTheme Script_js ''blue'' samplePage) 0 ''data-theme'' = Some ''light''
 \<and> getItem (applyTheme Script_js ''blue'' samplePage) LS_THEME = Some ''blue''
 \<and> getItem (applyTheme Script_js ''blue'' samplePage) LS_THEME \<noteq>
     getAttribute (applyTheme Script_js ''blue'' samplePage) 0 ''data-theme''"
proof -
  have h1: "''blue'' \<noteq> ''dark''" by simp
  have h2: "documentElement samplePage < length (nodes samplePage)" by code_simp
  have r: "documentElement samplePage = 0" by code_simp
  show ?thesis
    using applyTheme_persists_raw [OF h1 h2, of Script_js] h2 by (simp add: r)
qed

subsection \<open>Accordion\<close>

text \<open>
  C5, as amended. Take two distinct accordion items \<open>A\<close> and \<open>B\<close>, each with the header
  control and the panel that \<open>setupAccordion\<close> finds for it. Activating the click handler
  of \<open>A\<close>, in any state of the page, leaves the open marker of \<open>B\<close> unchanged; and when
  neither item is nested inside the other, it also leaves the \<open>aria-expanded\<close> attribute
  of the header control of \<open>B\<close> and the height override of the panel of \<open>B\<close> unchanged.
\<close>

theorem accordion_items_independent:
  assumes "singleParent (nodes d)"
    and "querySelectorIn d itemA (ByClass ''accordion-header'') = Some btnA"
    and "querySelectorIn d itemA (ByClass ''accordion-panel'') = Some panelA"
    and "querySelectorIn d itemB (ByClass ''accordion-header'') = Some btnB"
    and "querySelectorIn d itemB (ByClass ''accordion-panel'') = Some panelB"
    and "itemA \<noteq> itemB"
  shows "classList (nodes (handleEvent src (AccordionClick itemA btnA panelA) d') ! itemB) =
           classList (nodes d' ! itemB)
       \<and> (\<not> nestedIn d itemA itemB \<and> \<not> nestedIn d itemB itemA \<longrightarrow>
            attributes (nodes (handleEvent src (AccordionClick itemA btnA panelA) d') ! btnB) =
              attributes (nodes d' ! btnB)
          \<and> maxHeight (nodes (handleEvent src (AccordionClick itemA btnA panelA) d') ! panelB) =
              maxHeight (nodes d' ! panelB))"
proof -
  have "btnB \<noteq> btnA \<and> panelB \<noteq> panelA"
    if "\<not> nestedIn d itemA itemB" and "\<not> nestedIn d itemB itemA"
    using separate_items [OF assms(1) assms(4) assms(2)]
      separate_items [OF assms(1) assms(5) assms(3)] assms(6) that
    by auto
  then show ?thesis
    using accordionClick_touches [of itemB itemA src btnA panelA d' btnB panelB] assms(6)
    by auto
qed

text \<open>
  On the sample page the two items lie side by side, each with its own header control
  and panel: a click on the first leaves the second as it was.
\<close>

theorem accordion_items_independent_witness:
  "singleParent (nodes samplePage)
 \<and> querySelectorIn samplePage 10 (ByClass ''accordion-header'') = Some 11
 \<and> querySelectorIn samplePage 10 (ByClass ''accordion-panel'') = Some 12
 \<and> querySelectorIn samplePage 13 (ByClass ''accordion-header'') = Some 14
 \<and> querySelectorIn samplePage 13 (ByClass ''accordion-panel'') = Some 15
 \<and> \<not> nestedIn samplePage 10 13 \<and> \<not> nestedIn samplePage 13 10
 \<and> classList (nodes (handleEvent Script_js (AccordionClick 10 11 12) samplePage) ! 13) =
     classList (nodes samplePage ! 13)
 \<and> attributes (nodes (handleEvent Script_js (AccordionClick 10 11 12) samplePage) ! 14) =
     attributes (nodes samplePage ! 14)
 \<and> maxHeight (nodes (handleEvent Script_js (AccordionClick 10 11 12) samplePage) ! 15) =
     maxHeight (nodes samplePage ! 15)"
proof -
  have t: "singleParent (nodes samplePage)" by code_simp
  have q: "querySelectorIn samplePage 10 (ByClass ''accordion-header'') = Some 11"
    "querySelectorIn samplePage 10 (ByClass ''accordion-panel'') = Some 12"
    "querySelectorIn samplePage 13 (ByClass ''accordion-header'') = Some 14"
    "querySelectorIn samplePage 13 (ByClass ''accordion-panel'') = Some 15"
    by code_simp+
  have n: "\<not> nestedIn samplePage 10 13" "\<not> nestedIn samplePage 13 10" by code_simp+
  have ne: "(10::nat) \<noteq> 13" by simp
  show ?thesis
    using accordion_items_independent [OF t q ne, of Script_js samplePage] t q n by simp
qed

text \<open>
  C5 as stated fails when one item holds another: \<open>item.querySelector\<close> returns the
  first header and the first panel anywhere below the item. On the nested page both
  items of the group get the inner panel, and a click on the outer item sets the height
  override of the panel of the inner item, which stays closed.
\<close>

theorem accordion_items_independent_counterexample:
  "singleParent (nodes nestedPage)
 \<and> listeners (setupAccordion Script_js nestedPage) =
     [(3, AccordionClick 2 3 6), (5, AccordionClick 4 5 6)]
 \<and> nestedIn nestedPage 4 2
 \<and> maxHeight (nodes nestedPage ! 6) = []
 \<and> maxHeight (nodes (handleEvent Script_js (AccordionClick 2 3 6) nestedPage) ! 6) = ''40px''
 \<and> \<not> hasClass (handleEvent Script_js (AccordionClick 2 3 6) nestedPage) 4 ''open''
 \<and> maxHeight (nodes (click Script_js 3 (setupAccordion Script_js nestedPage)) ! 6) = ''40px''"
  by code_simp

text \<open>
  C6, as amended. For every accordion item that \<open>setupAccordion\<close> goes through and that
  has a header control and a panel, \<open>setupAccordion\<close> registers the click handler of the
  item on the control. Take any state of the page in which a click on the control runs
  this handler and nothing else: the handler is the only listener on the control, and
  no element above the control has a listener. If the item is closed there, the click
  opens it, sets the height override of the panel to the scroll height of the panel
  followed by \<open>px\<close>, and sets \<open>aria-expanded\<close> of the control to \<open>true\<close>. If the item is
  open there, the click closes it, clears the height override and sets \<open>aria-expanded\<close>
  to \<open>false\<close>.
\<close>

theorem accordion_click:
  assumes "item \<in> set (accordionItems src d)"
    and "querySelectorIn d item (ByClass ''accordion-header'') = Some btn"
    and "querySelectorIn d item (ByClass ''accordion-panel'') = Some panel"
  shows "(btn, AccordionClick item btn panel) \<in> set (listeners (setupAccordion src d))
       \<and> (\<forall>d'. length (nodes d') = length (nodes d)
               \<and> listenersOn d' btn = [AccordionClick item btn panel]
               \<and> (\<forall>a \<in> set (ancestors (length (nodes d')) (nodes d') btn). listenersOn d' a = [])
             \<longrightarrow>
               (\<not> hasClass d' item ''open'' \<longrightarrow>
                   hasClass (click src btn d') item ''open''
                 \<and> getAttribute (click src btn d') btn ''aria-expanded'' = Some ''true''
                 \<and> maxHeight (nodes (click src btn d') ! panel)
                     = numberToString (scrollHeight (nodes d' ! panel)) @ ''px'')
             \<and> (hasClass d' item ''open'' \<longrightarrow>
                   \<not> hasClass (click src btn d') item ''open''
                 \<and> getAttribute (click src btn d') btn ''aria-expanded'' = Some ''false''
                 \<and> maxHeight (nodes (click src btn d') ! panel) = []))"
proof (intro conjI allI impI)
  have "itemListeners d item = [(btn, AccordionClick item btn panel)]"
    using assms(2,3) by (simp add: itemListeners_def)
  then show "(btn, AccordionClick item btn panel) \<in> set (listeners (setupAccordion src d))"
    using assms(1) by (force simp: setupAccordion_listeners)
next
  fix d'
  assume h: "length (nodes d') = length (nodes d)
     \<and> listenersOn d' btn = [AccordionClick item btn panel]
     \<and> (\<forall>a \<in> set (ancestors (length (nodes d')) (nodes d') btn). listenersOn d' a = [])"
  have c: "click src btn d' = accordionClick item btn panel d'"
    using click_single [of d' btn "AccordionClick item btn panel" src] h
    by (simp add: accordionClick_listeners)
  have v: "item < length (nodes d')" "btn < length (nodes d')" "panel < length (nodes d')"
    using assms accordionItems_valid querySelectorIn_valid h by metis+
  {
    assume "\<not> hasClass d' item ''open''"
    then show "hasClass (click src btn d') item ''open''"
      "getAttribute (click src btn d') btn ''aria-expanded'' = Some ''true''"
      "maxHeight (nodes (click src btn d') ! panel)
         = numberToString (scrollHeight (nodes d' ! panel)) @ ''px''"
      unfolding c using accordionClick_open [OF v] by simp_all
  }
  {
    assume "hasClass d' item ''open''"
    then show "\<not> hasClass (click src btn d') item ''open''"
      "getAttribute (click src btn d') btn ''aria-expanded'' = Some ''false''"
      "maxHeight (nodes (click src btn d') ! panel) = []"
      unfolding c using accordionClick_close [OF v] by simp_all
  }
qed

text \<open>
  On the loaded sample page the first item is closed and its panel is 120 pixels high;
  the second item is open.
\<close>

theorem accordion_click_witness:
  "10 \<in> set (accordionItems Script_js samplePage)
 \<and> querySelectorIn samplePage 10 (ByClass ''accordion-header'') = Some 11
 \<and> querySelectorIn samplePage 10 (ByClass ''accordion-panel'') = Some 12
 \<and> (11, AccordionClick 10 11 12) \<in> set (listeners (setupAccordion Script_js samplePage))
 \<and> listenersOn (loaded samplePage) 11 = [AccordionClick 10 11 12]
 \<and> \<not> hasClass (loaded samplePage) 10 ''open''
 \<and> hasClass (click Script_js 11 (loaded samplePage)) 10 ''open''
 \<and> getAttribute (click Script_js 11 (loaded samplePage)) 11 ''aria-expanded'' = Some ''true''
 \<and> maxHeight (nodes (click Script_js 11 (loaded samplePage)) ! 12) = ''120px''
 \<and> 13 \<in> set (accordionItems Script_js samplePage)
 \<and> querySelectorIn samplePage 13 (ByClass ''accordion-header'') = Some 14
 \<and> querySelectorIn samplePage 13 (ByClass ''accordion-panel'') = Some 15
 \<and> listenersOn (loaded samplePage) 14 = [AccordionClick 13 14 15]
 \<and> hasClass (loaded samplePage) 13 ''open''
 \<and> \<not> hasClass (click Script_js 14 (loaded samplePage)) 13 ''open''
 \<and> getAttribute (click Script_js 14 (loaded samplePage)) 14 ''aria-expanded'' = Some ''false''
 \<and> maxHeight (nodes (click Script_js 14 (loaded samplePage)) ! 15) = []"
proof -
  let ?d1 = "loaded samplePage"
  have i: "10 \<in> set (accordionItems Script_js samplePage)" by code_simp
  have q: "querySelectorIn samplePage 10 (ByClass ''accordion-header'') = Some 11"
    "querySelectorIn samplePage 10 (ByClass ''accordion-panel'') = Some 12"
    by code_simp+
  have i': "13 \<in> set (accordionItems Script_js samplePage)" by code_simp
  have q': "querySelectorIn samplePage 13 (ByClass ''accordion-header'') = Some 14"
    "querySelectorIn samplePage 13 (ByClass ''accordion-panel'') = Some 15"
    by code_simp+
  have h: "length (nodes ?d1) = length (nodes samplePage)
     \<and> listenersOn ?d1 11 = [AccordionClick 10 11 12]
     \<and> (\<forall>a \<in> set (ancestors (length (nodes ?d1)) (nodes ?d1) 11). listenersOn ?d1 a = [])"
    by code_simp
  have h': "length (nodes ?d1) = length (nodes samplePage)
     \<and> listenersOn ?d1 14 = [AccordionClick 13 14 15]
     \<and> (\<forall>a \<in> set (ancestors (length (nodes ?d1)) (nodes ?d1) 14). listenersOn ?d1 a = [])"
    by code_simp
  have c: "\<not> hasClass ?d1 10 ''open''" "hasClass ?d1 13 ''open''" by code_simp+
  have n: "numberToString (scrollHeight (nodes ?d1 ! 12)) = ''120''" by code_simp
  note t = accordion_click [OF i q]
  note t' = accordion_click [OF i' q']
  show ?thesis
    using t [THEN conjunct1] t [THEN conjunct2, THEN spec, THEN mp, OF h]
      t' [THEN conjunct2, THEN spec, THEN mp, OF h'] i q i' q' h h' c
    by (simp add: n)
qed

text \<open>
  C6 as stated fails when a click on the control runs more than the handler of the item.
  On the page with the wrapped item, the outer and the inner item have the same header
  and panel: a click opens the outer item, and the handler of the inner item then
  closes the inner one, clears the height override and sets \<open>aria-expanded\<close> to \<open>false\<close>.
  On the page with the header inside a header, a click on the inner header opens the
  inner item and then reaches the outer header, whose handler closes the outer item
  and clears the height override of the panel they share.
\<close>

theorem accordion_click_counterexample:
  "listeners (loaded wrappedPage) = [(4, AccordionClick 2 4 5), (4, AccordionClick 3 4 5)]
 \<and> \<not> hasClass (loaded wrappedPage) 2 ''open''
 \<and> hasClass (click Script_js 4 (loaded wrappedPage)) 2 ''open''
 \<and> getAttribute (click Script_js 4 (loaded wrappedPage)) 4 ''aria-expanded'' = Some ''false''
 \<and> maxHeight (nodes (click Script_js 4 (loaded wrappedPage)) ! 5) = []
 \<and> listeners (loaded headerInHeaderPage) = [(3, AccordionClick 2 3 6), (5, AccordionClick 4 5 6)]
 \<and> \<not> hasClass (loaded headerInHeaderPage) 4 ''open''
 \<and> hasClass (click Script_js 5 (loaded headerInHeaderPage)) 4 ''open''
 \<and> getAttribute (click Script_js 5 (loaded headerInHeaderPage)) 5 ''aria-expanded'' = Some ''true''
 \<and> maxHeight (nodes (click Script_js 5 (loaded headerInHeaderPage)) ! 6) = []"
  by code_simp

subsection \<open>Reveal\<close>

text \<open>
  C7. Once an element carries the \<open>visible\<close> marker, it carries it after any sequence
  of notifications delivered to the observer callback, whether their entries report the
  element as intersecting or not.
\<close>

theorem reveal_monotonic:
  assumes "hasClass d r ''visible''"
  shows "hasClass (forEach batches observerCallback d) r ''visible''"
  unfolding forEach_def using assms
  by (rule fold_invariant [where P = "\<lambda>d. hasClass d r ''visible''"])
     (rule observerCallback_keeps)

text \<open>The heading of the sample page is revealed, then reported as out of view and in view again.\<close>

theorem reveal_monotonic_witness:
  "\<not> hasClass samplePage 8 ''visible''
 \<and> hasClass (observerCallback [\<lparr>target = 8, isIntersecting = True\<rparr>] samplePage) 8 ''visible''
 \<and> hasClass
     (forEach [[\<lparr>target = 8, isIntersecting = False\<rparr>], [\<lparr>target = 8, isIntersecting = True\<rparr>]]
        observerCallback
        (observerCallback [\<lparr>target = 8, isIntersecting = True\<rparr>] samplePage))
     8 ''visible''"
proof -
  have a: "\<not> hasClass samplePage 8 ''visible''" by code_simp
  have h: "hasClass (observerCallback [\<lparr>target = 8, isIntersecting = True\<rparr>] samplePage)
             8 ''visible''"
    by code_simp
  show ?thesis
    using reveal_monotonic [OF h,
        of "[[\<lparr>target = 8, isIntersecting = False\<rparr>], [\<lparr>target = 8, isIntersecting = True\<rparr>]]"]
      a h
    by simp
qed

subsection \<open>Navigation\<close>

text \<open>
  C8, as amended. When the page has both the menu button and the navigation container,
  \<open>setupNavToggle\<close> registers on every link inside the container a click handler that
  removes the \<open>open\<close> marker from the container. Take any state of the page in which a
  click on the link runs this handler and nothing else: the handler is the only
  listener on the link, and no element above the link has a listener. Then the
  container does not carry the \<open>open\<close> marker after the click, whether or not it
  carried it before.
\<close>

theorem navLink_click:
  assumes "getElementById d ''menu-toggle'' = Some btn"
    and "getElementById d ''nav-links'' = Some nav"
    and "a \<in> set (querySelectorAllIn d nav (ByTag ''a''))"
  shows "(a, NavLinkClick nav) \<in> set (listeners (setupNavToggle d))
       \<and> nav < length (nodes d)
       \<and> (\<forall>d'. length (nodes d') = length (nodes d)
               \<and> listenersOn d' a = [NavLinkClick nav]
               \<and> (\<forall>x \<in> set (ancestors (length (nodes d')) (nodes d') a). listenersOn d' x = [])
             \<longrightarrow> \<not> hasClass (click src a d') nav ''open'')"
proof -
  have "querySelectorAllIn (addEventListener btn (MenuToggleClick btn nav) d) nav (ByTag ''a'')
        = querySelectorAllIn d nav (ByTag ''a'')"
    by (simp add: querySelectorAllIn_def selectFrom_def addEventListener_def)
  then have "(a, NavLinkClick nav) \<in> set (listeners (setupNavToggle d))"
    using assms by (simp add: setupNavToggle_def forEach_def Let_def listeners_add_loop)
  moreover have v: "nav < length (nodes d)"
  proof -
    from assms(2) have "nav \<in> set (querySelectorAll d (ById ''nav-links''))"
      by (auto simp: getElementById_def split: list.splits)
    then show ?thesis using querySelectorAll_valid by blast
  qed
  moreover have "\<not> hasClass (click src a d') nav ''open''"
    if h: "length (nodes d') = length (nodes d)
       \<and> listenersOn d' a = [NavLinkClick nav]
       \<and> (\<forall>x \<in> set (ancestors (length (nodes d')) (nodes d') a). listenersOn d' x = [])"
    for d'
  proof -
    have "click src a d' = navLinkClick nav d'"
      using click_single [of d' a "NavLinkClick nav" src] h
      by (simp add: navLinkClick_listeners)
    then show ?thesis
      using h v by (simp add: navLinkClick_def classList_remove_def hasClass_def updEl_same)
  qed
  ultimately show ?thesis by blast
qed

text \<open>
  On the loaded sample page a click on the first link leaves the container without the
  marker, with the menu open and with the menu closed.
\<close>

theorem navLink_click_witness:
  "getElementById samplePage ''menu-toggle'' = Some 2
 \<and> getElementById samplePage ''nav-links'' = Some 3
 \<and> 4 \<in> set (querySelectorAllIn samplePage 3 (ByTag ''a''))
 \<and> (4, NavLinkClick 3) \<in> set (listeners (setupNavToggle samplePage))
 \<and> listenersOn (loaded samplePage) 4 = [NavLinkClick 3]
 \<and> hasClass (classList_add 3 ''open'' (loaded samplePage)) 3 ''open''
 \<and> \<not> hasClass (click Script_js 4 (classList_add 3 ''open'' (loaded samplePage))) 3 ''open''
 \<and> \<not> hasClass (loaded samplePage) 3 ''open''
 \<and> \<not> hasClass (click Script_js 4 (loaded samplePage)) 3 ''open''"
proof -
  let ?d1 = "loaded samplePage"
  let ?d2 = "classList_add 3 ''open'' (loaded samplePage)"
  have h1: "getElementById samplePage ''menu-toggle'' = Some 2" by code_simp
  have h2: "getElementById samplePage ''nav-links'' = Some 3" by code_simp
  have h3: "4 \<in> set (querySelectorAllIn samplePage 3 (ByTag ''a''))" by code_simp
  have s1: "length (nodes ?d1) = length (nodes samplePage)
     \<and> listenersOn ?d1 4 = [NavLinkClick 3]
     \<and> (\<forall>x \<in> set (ancestors (length (nodes ?d1)) (nodes ?d1) 4). listenersOn ?d1 x = [])"
    by code_simp
  have s2: "length (nodes ?d2) = length (nodes samplePage)
     \<and> listenersOn ?d2 4 = [NavLinkClick 3]
     \<and> (\<forall>x \<in> set (ancestors (length (nodes ?d2)) (nodes ?d2) 4). listenersOn ?d2 x = [])"
    by code_simp
  have o1: "\<not> hasClass ?d1 3 ''open''" by code_simp
  have o2: "hasClass ?d2 3 ''open''" by code_simp
  note t = navLink_click [OF h1 h2 h3, of Script_js]
  show ?thesis
    using t [THEN conjunct1] t [THEN conjunct2, THEN conjunct2, THEN spec, THEN mp, OF s1]
      t [THEN conjunct2, THEN conjunct2, THEN spec, THEN mp, OF s2] h1 h2 h3 s1 o1 o2
    by simp
qed

text \<open>
  C8 as stated fails on a page that has the navigation container but not the menu
  button: \<open>setupNavToggle\<close> returns before it attaches anything, no listener is
  registered on the links, and a click on a link leaves the marker on the container.
  It also fails on a page whose menu button holds the container: a click on a link
  removes the marker and then reaches the menu button, whose handler puts it back.
\<close>

theorem navLink_click_counterexample:
  "getElementById noMenuPage ''menu-toggle'' = None
 \<and> getElementById noMenuPage ''nav-links'' = Some 1
 \<and> 2 \<in> set (querySelectorAllIn noMenuPage 1 (ByTag ''a''))
 \<and> listeners (loaded noMenuPage) = []
 \<and> hasClass (loaded noMenuPage) 1 ''open''
 \<and> hasClass (click Script_js 2 (loaded noMenuPage)) 1 ''open''
 \<and> getElementById wrapNavPage ''menu-toggle'' = Some 1
 \<and> getElementById wrapNavPage ''nav-links'' = Some 2
 \<and> 3 \<in> set (querySelectorAllIn wrapNavPage 2 (ByTag ''a''))
 \<and> listeners (loaded wrapNavPage) = [(1, MenuToggleClick 1 2), (3, NavLinkClick 2)]
 \<and> \<not> hasClass (loaded wrapNavPage) 2 ''open''
 \<and> hasClass (click Script_js 3 (loaded wrapNavPage)) 2 ''open''
 \<and> hasClass (click Script_js 3 (click Script_js 3 (loaded wrapNavPage))) 2 ''open''"
  by code_simp


end
